theory Spec2Isabelle
  imports Main "HOL-Library.Sublist"
begin

section \<open>Messages of the vision service, as the script reads them\<close>

text \<open>
  Only the attributes that \<^verbatim>\<open>visionAPI.py\<close> reads are kept. Integer coordinates and
  likelihood ordinals are Python ints. Scores and normalized coordinates are Python
  floats: their type is the parameter \<open>'f\<close>, and the three float operations the script
  uses are taken as the fields of \<open>float_format\<close>.
\<close>

record vertex =
  vertex_x :: int
  vertex_y :: int

record 'f normalized_vertex =
  nvertex_x :: 'f
  nvertex_y :: 'f

record 'f bounding_poly =
  vertices :: "vertex list"
  normalized_vertices :: "'f normalized_vertex list"

record 'f entity_annotation =
  description :: string
  score :: 'f
  bounding_poly :: "'f bounding_poly"

record 'f face_annotation =
  anger_likelihood :: int
  joy_likelihood :: int
  surprise_likelihood :: int
  face_bounding_poly :: "'f bounding_poly"

record 'f localized_object_annotation =
  object_name :: string
  object_score :: 'f
  object_bounding_poly :: "'f bounding_poly"

record 'f web_entity =
  web_score :: 'f
  web_description :: string

record web_image =
  image_url :: string

record web_page =
  page_url :: string

record 'f web_detection_result =
  pages_with_matching_images :: "web_page list"
  full_matching_images :: "web_image list"
  partial_matching_images :: "web_image list"
  web_entities :: "'f web_entity list"

record status =
  message :: string

record 'f annotate_image_response =
  label_annotations :: "'f entity_annotation list"
  web_detection :: "'f web_detection_result"
  face_annotations :: "'f face_annotation list"
  logo_annotations :: "'f entity_annotation list"
  text_annotations :: "'f entity_annotation list"
  localized_object_annotations :: "'f localized_object_annotation list"
  error :: status

record 'f float_format =
  str_float :: "'f \<Rightarrow> string"
  times_100 :: "'f \<Rightarrow> 'f"
  format_2f :: "'f \<Rightarrow> string"

section \<open>Effects: the event trace and exceptions\<close>

text \<open>
  A run is observed through the trace of its events: a local file opened and read, a
  remote annotation call with the image it carries, a line given to \<^verbatim>\<open>print\<close>. A
  program takes the trace so far and returns its result, an exception (\<open>Inl\<close>) or a value
  (\<open>Inr\<close>), with the extended trace. What was printed before an exception stays in the
  trace, as it stays on the console.
\<close>

datatype category =
  LabelDetection | WebDetection | FaceDetection | LogoDetection | TextDetection
  | ObjectLocalization

datatype image = ImageUri string | ImageContent string

datatype event = Open string | Call category image | Print string

datatype exn =
  OSError string | DefaultCredentialsError string | ClientError string | IndexError
  | Exception string

type_synonym 'a prog = "event list \<Rightarrow> (exn + 'a) \<times> event list"

definition ret :: "'a \<Rightarrow> 'a prog" where
  "ret v tr = (Inr v, tr)"

definition raise :: "exn \<Rightarrow> 'a prog" where
  "raise e tr = (Inl e, tr)"

definition bind :: "'a prog \<Rightarrow> ('a \<Rightarrow> 'b prog) \<Rightarrow> 'b prog" where
  "bind m f tr = (case m tr of (Inl e, tr') \<Rightarrow> (Inl e, tr') | (Inr v, tr') \<Rightarrow> f v tr')"

fun seq :: "unit prog list \<Rightarrow> unit prog" where
  "seq [] = ret ()"
| "seq (m # ms) = bind m (\<lambda>_. seq ms)"

fun for_each :: "'a list \<Rightarrow> ('a \<Rightarrow> unit prog) \<Rightarrow> unit prog" where
  "for_each [] body = ret ()"
| "for_each (v # vs) body = bind (body v) (\<lambda>_. for_each vs body)"

text \<open>\<^verbatim>\<open>print(s)\<close> writes \<open>s\<close> and a newline to standard output.\<close>

definition print :: "string \<Rightarrow> unit prog" where
  "print str tr = (Inr (), tr @ [Print str])"

definition newline :: char where
  "newline = CHR 0x0A"

definition stdout_of :: "event list \<Rightarrow> string" where
  "stdout_of tr = concat (map (\<lambda>e. case e of Print str \<Rightarrow> str @ [newline] | _ \<Rightarrow> []) tr)"

section \<open>String formatting\<close>

text \<open>
  \<open>str_nat\<close> and \<open>str_int\<close> are the decimal rendering that \<^verbatim>\<open>'{}'.format\<close> gives a
  Python int, \<open>join\<close> is \<^verbatim>\<open>sep.join\<close>, and \<open>tuple_index\<close> is indexing of a tuple:
  a negative index counts from the end, and an index outside the tuple raises
  \<^verbatim>\<open>IndexError\<close>.
\<close>

definition digit_char :: "nat \<Rightarrow> char" where
  "digit_char d = ''0123456789'' ! d"

fun str_nat :: "nat \<Rightarrow> string" where
  "str_nat n = (if n < 10 then [digit_char n] else str_nat (n div 10) @ [digit_char (n mod 10)])"

declare str_nat.simps [simp del]

definition str_int :: "int \<Rightarrow> string" where
  "str_int i = (if i < 0 then CHR ''-'' # str_nat (nat (- i)) else str_nat (nat i))"

fun join :: "string \<Rightarrow> string list \<Rightarrow> string" where
  "join sep [] = []"
| "join sep [s] = s"
| "join sep (s # t # ts) = s @ sep @ join sep (t # ts)"

definition separator :: string where
  "separator = replicate 79 CHR ''=''"

definition tuple_index :: "'a list \<Rightarrow> int \<Rightarrow> exn + 'a" where
  "tuple_index t i =
     (if 0 \<le> i \<and> i < int (length t) then Inr (t ! nat i)
      else if - int (length t) \<le> i \<and> i < 0 then Inr (t ! nat (int (length t) + i))
      else Inl IndexError)"

definition lift :: "exn + 'a \<Rightarrow> 'a prog" where
  "lift r = (case r of Inl e \<Rightarrow> raise e | Inr v \<Rightarrow> ret v)"

section \<open>The six report functions\<close>

text \<open>
  Each report follows its source function statement by statement: \<open>seq\<close> is a
  sequence of statements and \<open>for_each\<close> a \<^verbatim>\<open>for\<close> loop, whose body is named when it
  has more than one statement. \<open>check_error\<close> is the closing
  \<^verbatim>\<open>if response.error.message: raise Exception(...)\<close> of the face, logo and text
  reports.
\<close>

definition error_info :: string where
  "error_info = newline # ''For more info on error messages, check: https://cloud.google.com/apis/design/errors''"

definition check_error :: "'f annotate_image_response \<Rightarrow> unit prog" where
  "check_error response =
     (if message (error response) \<noteq> []
      then raise (Exception (message (error response) @ error_info))
      else ret ())"

definition format_vertex :: "vertex \<Rightarrow> string" where
  "format_vertex v = ''('' @ str_int (vertex_x v) @ '','' @ str_int (vertex_y v) @ '')''"

definition object_lines :: "'f float_format \<Rightarrow> 'f localized_object_annotation \<Rightarrow> unit prog" where
  "object_lines fm object =
     seq [print (newline # object_name object @ '' (confidence: ''
                   @ str_float fm (object_score object) @ '')''),
          print ''Normalized bounding polygon vertices: '',
          for_each (normalized_vertices (object_bounding_poly object)) (\<lambda>v.
            print ('' - ('' @ str_float fm (nvertex_x v) @ '', ''
                     @ str_float fm (nvertex_y v) @ '')''))]"

definition object_report ::
  "'f float_format \<Rightarrow> 'f localized_object_annotation list \<Rightarrow> unit prog" where
  "object_report fm objects =
     seq [print (newline # ''Objects:''),
          print separator,
          print (''Number of objects found: '' @ str_nat (length objects)),
          for_each objects (object_lines fm)]"

definition text_lines :: "'f entity_annotation \<Rightarrow> unit prog" where
  "text_lines text =
     seq [print (newline # CHR 0x22 # description text @ [CHR 0x22]),
          print (''bounds: ''
                   @ join '','' (map format_vertex (vertices (bounding_poly text))))]"

definition text_report :: "'f annotate_image_response \<Rightarrow> unit prog" where
  "text_report response =
     seq [print (newline # ''Texts:''),
          print separator,
          for_each (text_annotations response) text_lines,
          check_error response]"

definition logo_report :: "'f annotate_image_response \<Rightarrow> unit prog" where
  "logo_report response =
     seq [print (newline # ''Logos:''),
          print separator,
          for_each (logo_annotations response) (\<lambda>logo. print (description logo)),
          check_error response]"

definition likelihood_name :: "string list" where
  "likelihood_name =
     [''UNKNOWN'', ''VERY_UNLIKELY'', ''UNLIKELY'', ''POSSIBLE'', ''LIKELY'', ''VERY_LIKELY'']"

definition print_likelihood :: "string \<Rightarrow> int \<Rightarrow> unit prog" where
  "print_likelihood label ordinal =
     bind (lift (tuple_index likelihood_name ordinal)) (\<lambda>nm. print (label @ nm))"

definition face_lines :: "'f face_annotation \<Rightarrow> unit prog" where
  "face_lines face =
     seq [print_likelihood ''anger: '' (anger_likelihood face),
          print_likelihood ''joy: '' (joy_likelihood face),
          print_likelihood ''surprise: '' (surprise_likelihood face),
          print (''face bounds: ''
                   @ join '','' (map format_vertex (vertices (face_bounding_poly face))))]"

definition face_report :: "'f annotate_image_response \<Rightarrow> unit prog" where
  "face_report response =
     seq [print (newline # ''Faces:''),
          print separator,
          for_each (face_annotations response) face_lines,
          check_error response]"

definition labels_report :: "'f float_format \<Rightarrow> 'f annotate_image_response \<Rightarrow> unit prog" where
  "labels_report fm response =
     seq [print (newline # ''Labels (and confidence score):''),
          print separator,
          for_each (label_annotations response) (\<lambda>label.
            print (description label @ '' (''
                     @ format_2f fm (times_100 fm (score label)) @ ''%)''))]"

definition when_nonempty :: "'a list \<Rightarrow> unit prog \<Rightarrow> unit prog" where
  "when_nonempty xs m = (if xs \<noteq> [] then m else ret ())"

definition entity_lines :: "'f float_format \<Rightarrow> 'f web_entity \<Rightarrow> unit prog" where
  "entity_lines fm entity =
     seq [print (''Score      : '' @ str_float fm (web_score entity)),
          print (''Description: '' @ web_description entity)]"

definition web_report :: "'f float_format \<Rightarrow> 'f web_detection_result \<Rightarrow> unit prog" where
  "web_report fm annotations =
     seq [print (newline # ''Web entities (and relevancy score):''),
          print separator,
          when_nonempty (pages_with_matching_images annotations)
            (seq [print (newline # str_nat (length (pages_with_matching_images annotations))
                           @ '' Pages with matching images retrieved''),
                  for_each (pages_with_matching_images annotations) (\<lambda>page.
                    print (''Url   : '' @ page_url page))]),
          when_nonempty (full_matching_images annotations)
            (seq [print (newline # str_nat (length (full_matching_images annotations))
                           @ '' Full Matches found: ''),
                  for_each (full_matching_images annotations) (\<lambda>image.
                    print (''Url  : '' @ image_url image))]),
          when_nonempty (partial_matching_images annotations)
            (seq [print (newline # str_nat (length (partial_matching_images annotations))
                           @ '' Partial Matches found: ''),
                  for_each (partial_matching_images annotations) (\<lambda>image.
                    print (''Url  : '' @ image_url image))]),
          when_nonempty (web_entities annotations)
            (seq [print (newline # str_nat (length (web_entities annotations))
                           @ '' Web entities found: ''),
                  for_each (web_entities annotations) (entity_lines fm)])]"

section \<open>The run: loading the image and the six calls\<close>

text \<open>
  An annotation client is its methods, one per category, each returning a response or
  raising. The world of a run: \<open>files\<close> gives the contents of the local files that can
  be opened for reading (\<open>None\<close> when \<^verbatim>\<open>io.open\<close> fails), and \<open>construction\<close> is
  what \<^verbatim>\<open>vision.ImageAnnotatorClient()\<close> does there: it raises, as it does when the
  credentials file is not found, or returns a client. \<open>annotate\<close> constructs the client
  first, then \<open>load_image\<close> branches on the path's prefix, then \<open>detect_and_report\<close>
  makes the six calls on the client, each followed by its report.
\<close>

type_synonym 'f vision_client = "category \<Rightarrow> image \<Rightarrow> exn + 'f annotate_image_response"

record 'f world =
  files :: "string \<Rightarrow> string option"
  construction :: "exn + 'f vision_client"

definition image_annotator_client :: "'f world \<Rightarrow> 'f vision_client prog" where
  "image_annotator_client w = lift (construction w)"

definition io_open_read :: "'f world \<Rightarrow> string \<Rightarrow> string prog" where
  "io_open_read w path tr =
     (case files w path of
        None \<Rightarrow> (Inl (OSError path), tr @ [Open path])
      | Some content \<Rightarrow> (Inr content, tr @ [Open path]))"

definition call :: "'f vision_client \<Rightarrow> category \<Rightarrow> image \<Rightarrow> 'f annotate_image_response prog" where
  "call cl c img tr = (cl c img, tr @ [Call c img])"

definition load_image :: "'f world \<Rightarrow> string \<Rightarrow> image prog" where
  "load_image w path =
     (if prefix ''http'' path \<or> prefix ''gs:'' path
      then ret (ImageUri path)
      else bind (io_open_read w path) (\<lambda>content. ret (ImageContent content)))"

definition detect_and_report ::
  "'f float_format \<Rightarrow> 'f vision_client \<Rightarrow> image \<Rightarrow> unit prog" where
  "detect_and_report fm cl img =
     bind (call cl LabelDetection img) (\<lambda>labels_response.
     bind (labels_report fm labels_response) (\<lambda>_.
     bind (call cl WebDetection img) (\<lambda>web_call.
     bind (web_report fm (web_detection web_call)) (\<lambda>_.
     bind (call cl FaceDetection img) (\<lambda>face_response.
     bind (face_report face_response) (\<lambda>_.
     bind (call cl LogoDetection img) (\<lambda>logo_response.
     bind (logo_report logo_response) (\<lambda>_.
     bind (call cl TextDetection img) (\<lambda>text_response.
     bind (text_report text_response) (\<lambda>_.
     bind (call cl ObjectLocalization img) (\<lambda>object_call.
     object_report fm (localized_object_annotations object_call))))))))))))"

definition annotate :: "'f float_format \<Rightarrow> 'f world \<Rightarrow> string \<Rightarrow> unit prog" where
  "annotate fm w path =
     bind (image_annotator_client w) (\<lambda>client.
     bind (load_image w path) (\<lambda>image.
     detect_and_report fm client image))"

section \<open>The sections the reports are specified to print\<close>

text \<open>
  The section of each report as the specification words it: a header line, a separator
  line, then one line or block per record. These definitions are compared with the
  report functions above, which follow the source.
\<close>

text \<open>
  The number a decimal numeral stands for, to say what the count printed in a report is:
  \<open>digit_value\<close> is the position of a digit among the ten digits, and
  \<open>decimal_value\<close> reads a string of digits from the left.
\<close>

definition digit_value :: "char \<Rightarrow> nat" where
  "digit_value ch = length (takeWhile (\<lambda>d. d \<noteq> ch) ''0123456789'')"

definition decimal_value :: "string \<Rightarrow> nat" where
  "decimal_value s = foldl (\<lambda>v ch. 10 * v + digit_value ch) 0 s"

definition labels_section :: "'f float_format \<Rightarrow> 'f annotate_image_response \<Rightarrow> event list" where
  "labels_section fm r =
     [Print (newline # ''Labels (and confidence score):''), Print separator]
     @ map (\<lambda>l. Print (description l @ '' ('' @ format_2f fm (times_100 fm (score l)) @ ''%)''))
         (label_annotations r)"

definition counted_block :: "string \<Rightarrow> ('a \<Rightarrow> event list) \<Rightarrow> 'a list \<Rightarrow> event list" where
  "counted_block title lines xs =
     (if xs = [] then []
      else Print (newline # str_nat (length xs) @ title) # concat (map lines xs))"

definition pages_block :: "web_page list \<Rightarrow> event list" where
  "pages_block pages =
     counted_block '' Pages with matching images retrieved''
       (\<lambda>p. [Print (''Url   : '' @ page_url p)]) pages"

definition web_rest :: "'f float_format \<Rightarrow> 'f web_detection_result \<Rightarrow> event list" where
  "web_rest fm a =
     counted_block '' Full Matches found: ''
       (\<lambda>i. [Print (''Url  : '' @ image_url i)]) (full_matching_images a)
     @ counted_block '' Partial Matches found: ''
       (\<lambda>i. [Print (''Url  : '' @ image_url i)]) (partial_matching_images a)
     @ counted_block '' Web entities found: ''
       (\<lambda>e. [Print (''Score      : '' @ str_float fm (web_score e)),
             Print (''Description: '' @ web_description e)]) (web_entities a)"

definition web_section :: "'f float_format \<Rightarrow> 'f web_detection_result \<Rightarrow> event list" where
  "web_section fm a =
     [Print (newline # ''Web entities (and relevancy score):''), Print separator]
     @ pages_block (pages_with_matching_images a) @ web_rest fm a"

definition logo_section :: "'f annotate_image_response \<Rightarrow> event list" where
  "logo_section r =
     [Print (newline # ''Logos:''), Print separator]
     @ map (\<lambda>l. Print (description l)) (logo_annotations r)"

definition text_block :: "'f entity_annotation \<Rightarrow> event list" where
  "text_block t =
     [Print (newline # CHR 0x22 # description t @ [CHR 0x22]),
      Print (''bounds: '' @ join '','' (map format_vertex (vertices (bounding_poly t))))]"

definition text_section :: "'f annotate_image_response \<Rightarrow> event list" where
  "text_section r =
     [Print (newline # ''Texts:''), Print separator] @ concat (map text_block (text_annotations r))"

definition valid_ordinal :: "int \<Rightarrow> bool" where
  "valid_ordinal i = (- 6 \<le> i \<and> i < 6)"

definition likelihood_label :: "int \<Rightarrow> string" where
  "likelihood_label i = likelihood_name ! nat (if i < 0 then 6 + i else i)"

definition face_ok :: "'f face_annotation \<Rightarrow> bool" where
  "face_ok f =
     (valid_ordinal (anger_likelihood f) \<and> valid_ordinal (joy_likelihood f)
      \<and> valid_ordinal (surprise_likelihood f))"

definition face_block :: "'f face_annotation \<Rightarrow> event list" where
  "face_block f =
     [Print (''anger: '' @ likelihood_label (anger_likelihood f)),
      Print (''joy: '' @ likelihood_label (joy_likelihood f)),
      Print (''surprise: '' @ likelihood_label (surprise_likelihood f)),
      Print (''face bounds: '' @ join '','' (map format_vertex (vertices (face_bounding_poly f))))]"

definition face_section :: "'f annotate_image_response \<Rightarrow> event list" where
  "face_section r =
     [Print (newline # ''Faces:''), Print separator] @ concat (map face_block (face_annotations r))"

definition object_block :: "'f float_format \<Rightarrow> 'f localized_object_annotation \<Rightarrow> event list" where
  "object_block fm obj =
     [Print (newline # object_name obj @ '' (confidence: '' @ str_float fm (object_score obj) @ '')''),
      Print ''Normalized bounding polygon vertices: '']
     @ map (\<lambda>v. Print ('' - ('' @ str_float fm (nvertex_x v) @ '', '' @ str_float fm (nvertex_y v) @ '')''))
         (normalized_vertices (object_bounding_poly obj))"

definition object_section :: "'f float_format \<Rightarrow> 'f localized_object_annotation list \<Rightarrow> event list" where
  "object_section fm objs =
     [Print (newline # ''Objects:''), Print separator,
      Print (''Number of objects found: '' @ str_nat (length objs))]
     @ concat (map (object_block fm) objs)"

definition service_error :: "'f annotate_image_response \<Rightarrow> exn + unit" where
  "service_error r =
     (if message (error r) = [] then Inr ()
      else Inl (Exception (message (error r) @ newline #
             ''For more info on error messages, check: https://cloud.google.com/apis/design/errors'')))"

text \<open>
  Two predicates on programs. \<open>emits m evs\<close>: from every trace, \<open>m\<close> returns normally
  and appends exactly \<open>evs\<close>. \<open>printer m\<close>: the result of \<open>m\<close> and the lines it prints
  are the same from every trace, and it appends nothing but printed lines.
  \<open>written m tr\<close> is the text that \<open>m\<close>, started on the trace \<open>tr\<close>, adds to standard
  output.
\<close>

definition emits :: "unit prog \<Rightarrow> event list \<Rightarrow> bool" where
  "emits m evs = (\<forall>tr. m tr = (Inr (), tr @ evs))"

definition printer :: "'a prog \<Rightarrow> bool" where
  "printer m = (\<exists>res out. \<forall>tr. m tr = (res, tr @ map Print out))"

definition written :: "'a prog \<Rightarrow> event list \<Rightarrow> string" where
  "written m tr = drop (length (stdout_of tr)) (stdout_of (snd (m tr)))"

section \<open>The run as a fixed sequence of steps\<close>

text \<open>
  The run as the specification describes it: the categories in their fixed order, and for
  each category a step, the call followed by the category's report on the response. A
  step that fails ends the run. \<open>calls_of\<close> and \<open>opens_of\<close> read the remote calls
  and the files opened off a trace.
\<close>

definition categories :: "category list" where
  "categories =
     [LabelDetection, WebDetection, FaceDetection, LogoDetection, TextDetection,
      ObjectLocalization]"

fun report :: "'f float_format \<Rightarrow> category \<Rightarrow> 'f annotate_image_response \<Rightarrow> unit prog" where
  "report fm LabelDetection r = labels_report fm r"
| "report fm WebDetection r = web_report fm (web_detection r)"
| "report fm FaceDetection r = face_report r"
| "report fm LogoDetection r = logo_report r"
| "report fm TextDetection r = text_report r"
| "report fm ObjectLocalization r = object_report fm (localized_object_annotations r)"

definition step_result ::
  "'f float_format \<Rightarrow> 'f vision_client \<Rightarrow> image \<Rightarrow> category \<Rightarrow> exn + unit" where
  "step_result fm cl img c =
     (case cl c img of Inl e \<Rightarrow> Inl e | Inr r \<Rightarrow> fst (report fm c r []))"

definition step_ok ::
  "'f float_format \<Rightarrow> 'f vision_client \<Rightarrow> image \<Rightarrow> category \<Rightarrow> bool" where
  "step_ok fm cl img c = (step_result fm cl img c = Inr ())"

definition step_trace ::
  "'f float_format \<Rightarrow> 'f vision_client \<Rightarrow> image \<Rightarrow> category \<Rightarrow> event list" where
  "step_trace fm cl img c =
     Call c img # (case cl c img of Inl e \<Rightarrow> [] | Inr r \<Rightarrow> snd (report fm c r []))"

fun steps_trace ::
  "'f float_format \<Rightarrow> 'f vision_client \<Rightarrow> image \<Rightarrow> category list \<Rightarrow> event list" where
  "steps_trace fm cl img [] = []"
| "steps_trace fm cl img (c # cs) =
     step_trace fm cl img c @ (if step_ok fm cl img c then steps_trace fm cl img cs else [])"

fun steps_result ::
  "'f float_format \<Rightarrow> 'f vision_client \<Rightarrow> image \<Rightarrow> category list \<Rightarrow> exn + unit" where
  "steps_result fm cl img [] = Inr ()"
| "steps_result fm cl img (c # cs) =
     (if step_ok fm cl img c then steps_result fm cl img cs else step_result fm cl img c)"

fun calls_of :: "event list \<Rightarrow> (category \<times> image) list" where
  "calls_of [] = []"
| "calls_of (Call c img # tr) = (c, img) # calls_of tr"
| "calls_of (e # tr) = calls_of tr"

fun opens_of :: "event list \<Rightarrow> string list" where
  "opens_of [] = []"
| "opens_of (Open p # tr) = p # opens_of tr"
| "opens_of (e # tr) = opens_of tr"

section \<open>Concrete responses and worlds\<close>

text \<open>
  The inputs at which the theorems below are instantiated. They carry no float: the
  float type is \<open>unit\<close> and every float-bearing collection is empty.
\<close>

definition no_floats :: "unit float_format" where
  "no_floats = \<lparr>str_float = (\<lambda>_. []), times_100 = (\<lambda>v. v), format_2f = (\<lambda>_. [])\<rparr>"

definition box :: "unit bounding_poly" where
  "box =
     \<lparr>vertices = [\<lparr>vertex_x = 10, vertex_y = 20\<rparr>, \<lparr>vertex_x = 110, vertex_y = 20\<rparr>,
                  \<lparr>vertex_x = 110, vertex_y = 120\<rparr>, \<lparr>vertex_x = 10, vertex_y = 120\<rparr>],
      normalized_vertices = []\<rparr>"

definition face_with :: "int \<Rightarrow> int \<Rightarrow> int \<Rightarrow> unit face_annotation" where
  "face_with a j s =
     \<lparr>anger_likelihood = a, joy_likelihood = j, surprise_likelihood = s,
      face_bounding_poly = box\<rparr>"

definition no_web :: "unit web_detection_result" where
  "no_web =
     \<lparr>pages_with_matching_images = [], full_matching_images = [],
      partial_matching_images = [], web_entities = []\<rparr>"

definition good_response :: "unit annotate_image_response" where
  "good_response =
     \<lparr>label_annotations = [],
      web_detection = no_web\<lparr>pages_with_matching_images := [\<lparr>page_url = ''http://a/1''\<rparr>,
                                                               \<lparr>page_url = ''http://b/2''\<rparr>]\<rparr>,
      face_annotations = [face_with 3 0 5],
      logo_annotations = [\<lparr>description = ''acme'', score = (), bounding_poly = box\<rparr>],
      text_annotations = [\<lparr>description = ''Hi'', score = (), bounding_poly = box\<rparr>],
      localized_object_annotations = [],
      error = \<lparr>message = []\<rparr>\<rparr>"

definition failed_response :: "unit annotate_image_response" where
  "failed_response = good_response\<lparr>error := \<lparr>message = ''Bad image data.''\<rparr>\<rparr>"

definition stray_response :: "unit annotate_image_response" where
  "stray_response = good_response\<lparr>face_annotations := [face_with 6 0 0]\<rparr>"

definition stray_failed_response :: "unit annotate_image_response" where
  "stray_failed_response = failed_response\<lparr>face_annotations := [face_with 0 7 0]\<rparr>"

definition negative_response :: "unit annotate_image_response" where
  "negative_response = good_response\<lparr>face_annotations := [face_with (- 1) 0 0]\<rparr>"

definition good_client :: "unit vision_client" where
  "good_client = (\<lambda>c img. Inr good_response)"

definition good_world :: "unit world" where
  "good_world =
     \<lparr>files = (\<lambda>p. if p = ''cat.jpg'' then Some ''JPEGDATA'' else None),
      construction = Inr good_client\<rparr>"

definition face_error_client :: "unit vision_client" where
  "face_error_client =
     (\<lambda>c img. if c = FaceDetection then Inr failed_response else Inr good_response)"

definition face_error_world :: "unit world" where
  "face_error_world = good_world\<lparr>construction := Inr face_error_client\<rparr>"

definition web_down_client :: "unit vision_client" where
  "web_down_client =
     (\<lambda>c img. if c = WebDetection then Inl (ClientError ''503 Service Unavailable'')
              else Inr good_response)"

definition web_down_world :: "unit world" where
  "web_down_world = good_world\<lparr>construction := Inr web_down_client\<rparr>"

definition no_key_world :: "unit world" where
  "no_key_world =
     good_world\<lparr>construction := Inl (DefaultCredentialsError ''File key.json was not found.'')\<rparr>"

definition twelve_pages :: "unit web_detection_result" where
  "twelve_pages = no_web\<lparr>pages_with_matching_images := replicate 12 \<lparr>page_url = ''http://a/1''\<rparr>\<rparr>"

section \<open>Programs that return normally\<close>

text \<open>
  How \<open>emits\<close> goes through the sequencing of statements and through loops.
\<close>

lemma emitsD: "emits m evs \<Longrightarrow> m tr = (Inr (), tr @ evs)"
  by (simp add: emits_def)

lemma emits_ret: "emits (ret ()) []"
  by (simp add: emits_def ret_def)

lemma emits_print: "emits (print str) [Print str]"
  by (simp add: emits_def print_def)

lemma bind_emits: "emits m evs \<Longrightarrow> bind m (\<lambda>_. n) tr = n (tr @ evs)"
  by (simp add: emits_def bind_def)

lemma emits_bind: "emits m a \<Longrightarrow> emits n b \<Longrightarrow> emits (bind m (\<lambda>_. n)) (a @ b)"
  by (simp add: emits_def bind_def)

lemma emits_seq_Cons: "emits m a \<Longrightarrow> emits (seq ms) b \<Longrightarrow> emits (seq (m # ms)) (a @ b)"
  by (simp add: emits_bind)

lemma emits_seq_Nil: "emits (seq []) []"
  by (simp add: emits_ret)

lemma emits_for_each:
  "(\<And>v. v \<in> set vs \<Longrightarrow> emits (body v) (g v)) \<Longrightarrow> emits (for_each vs body) (concat (map g vs))"
proof (induction vs)
  case Nil
  show ?case by (simp add: emits_ret)
next
  case (Cons v vs)
  have "emits (body v) (g v)" using Cons.prems by simp
  moreover have "emits (for_each vs body) (concat (map g vs))"
    using Cons by simp
  ultimately show ?case by (simp add: emits_bind)
qed

lemma emits_for_each_print:
  "emits (for_each vs (\<lambda>v. print (g v))) (map (\<lambda>v. Print (g v)) vs)"
  using emits_for_each [of vs "\<lambda>v. print (g v)" "\<lambda>v. [Print (g v)]"]
  by (simp add: emits_print concat_map_singleton)

lemma emits_cong: "emits m a \<Longrightarrow> a = b \<Longrightarrow> emits m b"
  by simp

section \<open>The decimal rendering of a count\<close>

text \<open>
  The ten digits and their values, and the value of a numeral extended by a digit.
\<close>

lemma digit_cases: "d < 10 \<Longrightarrow> d \<in> {0, 1, 2, 3, 4, 5, 6, 7, 8, 9 :: nat}"
  by auto

lemma digit_value_digit_char: "d < 10 \<Longrightarrow> digit_value (digit_char d) = d"
  by (drule digit_cases) (auto simp: digit_value_def digit_char_def)

lemma digit_char_digit: "d < 10 \<Longrightarrow> digit_char d \<in> set ''0123456789''"
  by (drule digit_cases) (auto simp: digit_char_def)

lemma digit_char_zero: "d < 10 \<Longrightarrow> digit_char d = CHR ''0'' \<Longrightarrow> d = 0"
  by (drule digit_cases) (auto simp: digit_char_def)

lemma decimal_value_snoc: "decimal_value (s @ [ch]) = 10 * decimal_value s + digit_value ch"
  by (simp add: decimal_value_def)

lemma str_nat_nonempty: "str_nat n \<noteq> []"
  by (subst str_nat.simps) simp

section \<open>The reports print their sections\<close>

text \<open>
  Each report function prints the section specified for it. The logo and text reports
  end with the result of the error check; so does the face report when every likelihood
  ordinal indexes the table, and it raises \<^verbatim>\<open>IndexError\<close> when one does not.
\<close>

lemma check_error_eq: "check_error r tr = (service_error r, tr)"
  by (simp add: check_error_def service_error_def error_info_def ret_def raise_def)

lemma bind_check_error: "bind (check_error r) ret tr = (service_error r, tr)"
  by (cases "service_error r") (simp_all add: bind_def check_error_eq ret_def)

lemma seq_then_check:
  assumes "emits a ea" and "emits b eb" and "emits c ec"
  shows "seq [a, b, c, check_error r] tr = (service_error r, tr @ ea @ eb @ ec)"
  using assms by (simp add: bind_emits bind_check_error)

lemma labels_report_emits: "emits (labels_report fm r) (labels_section fm r)"
  unfolding labels_report_def labels_section_def
  by (rule emits_cong, (rule emits_seq_Cons emits_seq_Nil emits_print emits_for_each_print)+) simp

lemma logo_report_eq: "logo_report r tr = (service_error r, tr @ logo_section r)"
  unfolding logo_report_def logo_section_def
  by (simp add: seq_then_check [OF emits_print emits_print emits_for_each_print] del: seq.simps)

lemma emits_text_lines: "emits (text_lines text) (text_block text)"
  unfolding text_lines_def text_block_def
  by (rule emits_cong, (rule emits_seq_Cons emits_seq_Nil emits_print)+) simp

lemma text_report_eq: "text_report r tr = (service_error r, tr @ text_section r)"
  unfolding text_report_def text_section_def
  by (subst seq_then_check [OF emits_print emits_print emits_for_each [where g = text_block]])
     (simp_all add: emits_text_lines del: seq.simps)

lemma tuple_index_likelihood:
  "tuple_index likelihood_name i = (if valid_ordinal i then Inr (likelihood_label i) else Inl IndexError)"
  by (auto simp: tuple_index_def valid_ordinal_def likelihood_label_def likelihood_name_def)

lemma print_likelihood_ok:
  "valid_ordinal i \<Longrightarrow> emits (print_likelihood l i) [Print (l @ likelihood_label i)]"
  by (simp add: print_likelihood_def tuple_index_likelihood lift_def emits_def bind_def ret_def print_def)

lemma print_likelihood_bad:
  "\<not> valid_ordinal i \<Longrightarrow> print_likelihood l i tr = (Inl IndexError, tr)"
  by (simp add: print_likelihood_def tuple_index_likelihood lift_def bind_def raise_def)

lemma face_lines_ok: "face_ok f \<Longrightarrow> emits (face_lines f) (face_block f)"
  unfolding face_lines_def face_block_def face_ok_def
  by (rule emits_cong, (rule emits_seq_Cons emits_seq_Nil emits_print print_likelihood_ok | simp)+)

lemma seq_Cons_emits: "emits m a \<Longrightarrow> seq (m # ms) tr = seq ms (tr @ a)"
  by (simp add: bind_emits)

lemma seq_Cons_raises: "m tr = (Inl e, tr') \<Longrightarrow> seq (m # ms) tr = (Inl e, tr')"
  by (simp add: bind_def)

lemma face_lines_bad: "\<not> face_ok f \<Longrightarrow> fst (face_lines f tr) = Inl IndexError"
  unfolding face_lines_def face_ok_def
  by (cases "valid_ordinal (anger_likelihood f)"; cases "valid_ordinal (joy_likelihood f)")
     (simp_all only: seq_Cons_emits [OF print_likelihood_ok] seq_Cons_raises [OF print_likelihood_bad]
        fst_conv simp_thms)

lemma for_each_faces_ok:
  "\<forall>f\<in>set fs. face_ok f \<Longrightarrow> emits (for_each fs face_lines) (concat (map face_block fs))"
  by (rule emits_for_each) (simp add: face_lines_ok)

lemma for_each_faces_bad:
  "\<exists>f\<in>set fs. \<not> face_ok f \<Longrightarrow> fst (for_each fs face_lines tr) = Inl IndexError"
proof (induction fs arbitrary: tr)
  case Nil
  then show ?case by simp
next
  case (Cons f fs)
  show ?case
  proof (cases "face_ok f")
    case True
    with Cons.prems have "\<exists>f\<in>set fs. \<not> face_ok f" by simp
    then show ?thesis
      using Cons.IH by (simp add: bind_emits [OF face_lines_ok [OF True]])
  next
    case False
    from face_lines_bad [OF this, of tr] show ?thesis
      by (cases "face_lines f tr") (simp add: bind_def)
  qed
qed

lemma face_report_ok:
  "\<forall>f\<in>set (face_annotations r). face_ok f \<Longrightarrow>
     face_report r tr = (service_error r, tr @ face_section r)"
  unfolding face_report_def face_section_def
  by (simp add: seq_then_check [OF emits_print emits_print for_each_faces_ok] del: seq.simps)

lemma face_report_bad:
  assumes "\<exists>f\<in>set (face_annotations r). \<not> face_ok f"
  shows "fst (face_report r tr) = Inl IndexError"
proof -
  let ?tr = "(tr @ [Print (newline # ''Faces:'')]) @ [Print separator]"
  obtain tr' where bad: "for_each (face_annotations r) face_lines ?tr = (Inl IndexError, tr')"
    using for_each_faces_bad [OF assms, of ?tr]
    by (cases "for_each (face_annotations r) face_lines ?tr") simp
  have "face_report r tr = seq [for_each (face_annotations r) face_lines, check_error r] ?tr"
    unfolding face_report_def by (simp only: seq_Cons_emits [OF emits_print])
  also have "\<dots> = (Inl IndexError, tr')"
    by (rule seq_Cons_raises) (fact bad)
  finally show ?thesis by simp
qed


lemma emits_counted:
  assumes "\<And>v. emits (body v) (g v)"
  shows "emits (when_nonempty xs (seq [print (newline # str_nat (length xs) @ title), for_each xs body]))
           (counted_block title g xs)"
proof (cases "xs = []")
  case True
  then show ?thesis by (simp add: when_nonempty_def counted_block_def emits_ret)
next
  case False
  have "emits (seq [print (newline # str_nat (length xs) @ title), for_each xs body])
          ([Print (newline # str_nat (length xs) @ title)] @ concat (map g xs) @ [])"
    by (rule emits_seq_Cons emits_seq_Nil emits_print emits_for_each assms)+
  with False show ?thesis by (simp add: when_nonempty_def counted_block_def)
qed

lemma emits_entity_lines:
  "emits (entity_lines fm e)
     [Print (''Score      : '' @ str_float fm (web_score e)), Print (''Description: '' @ web_description e)]"
  unfolding entity_lines_def
  by (rule emits_cong, (rule emits_seq_Cons emits_seq_Nil emits_print)+) simp

lemma web_report_emits: "emits (web_report fm a) (web_section fm a)"
  unfolding web_report_def web_section_def web_rest_def pages_block_def
  by (rule emits_cong,
      (rule emits_seq_Cons emits_seq_Nil emits_print emits_counted emits_entity_lines)+) simp

lemma emits_object_lines: "emits (object_lines fm obj) (object_block fm obj)"
  unfolding object_lines_def object_block_def
  by (rule emits_cong, (rule emits_seq_Cons emits_seq_Nil emits_print emits_for_each_print)+) simp

lemma object_report_emits: "emits (object_report fm objs) (object_section fm objs)"
  unfolding object_report_def object_section_def
  by (rule emits_cong,
      (rule emits_seq_Cons emits_seq_Nil emits_print emits_for_each emits_object_lines)+) simp

section \<open>The reports depend on the response only\<close>

text \<open>
  \<open>printer\<close> is kept by every statement the reports are built from, failing ones
  included, so every report is a printer.
\<close>

lemma printerI: "(\<And>tr. m tr = (res, tr @ map Print out)) \<Longrightarrow> printer m"
  unfolding printer_def by blast

lemma printer_ret: "printer (ret v)"
  by (rule printerI [where out = "[]"]) (simp add: ret_def)

lemma printer_raise: "printer (raise e)"
  by (rule printerI [where out = "[]"]) (simp add: raise_def)

lemma printer_print: "printer (print str)"
  by (rule printerI [where out = "[str]"]) (simp add: print_def)

lemma printer_lift: "printer (lift r)"
  by (cases r) (simp_all add: lift_def printer_ret printer_raise)

lemma printer_bind:
  assumes "printer m" and "\<And>v. printer (f v)"
  shows "printer (bind m f)"
proof -
  from assms(1) obtain res out where m: "\<And>tr. m tr = (res, tr @ map Print out)"
    unfolding printer_def by blast
  show ?thesis
  proof (cases res)
    case (Inl e)
    show ?thesis
      by (rule printerI [where res = "Inl e" and out = out]) (simp add: bind_def m Inl)
  next
    case (Inr v)
    from assms(2) [of v] obtain res' out' where f: "\<And>tr. f v tr = (res', tr @ map Print out')"
      unfolding printer_def by blast
    show ?thesis
      by (rule printerI [where res = res' and out = "out @ out'"]) (simp add: bind_def m Inr f)
  qed
qed

lemma printer_seq_Nil: "printer (seq [])"
  by (simp add: printer_ret)

lemma printer_seq_Cons: "printer m \<Longrightarrow> printer (seq ms) \<Longrightarrow> printer (seq (m # ms))"
  by (simp add: printer_bind)

lemma printer_for_each: "(\<And>v. printer (body v)) \<Longrightarrow> printer (for_each vs body)"
  by (induction vs) (simp_all add: printer_ret printer_bind)

lemma printer_when_nonempty: "printer m \<Longrightarrow> printer (when_nonempty xs m)"
  by (simp add: when_nonempty_def printer_ret)

lemma printer_check_error: "printer (check_error r)"
  by (simp add: check_error_def printer_ret printer_raise)

lemma printer_print_likelihood: "printer (print_likelihood l i)"
  unfolding print_likelihood_def by (intro printer_bind printer_lift printer_print)

lemmas printer_intros =
  printer_seq_Cons printer_seq_Nil printer_print printer_for_each printer_when_nonempty
  printer_check_error printer_print_likelihood

lemma printer_face_lines: "printer (face_lines f)"
  unfolding face_lines_def by (rule printer_intros)+

lemma printer_face_report: "printer (face_report r)"
  unfolding face_report_def by (rule printer_intros printer_face_lines)+

lemma printer_labels_report: "printer (labels_report fm r)"
  unfolding labels_report_def by (rule printer_intros)+

lemma printer_entity_lines: "printer (entity_lines fm e)"
  unfolding entity_lines_def by (rule printer_intros)+

lemma printer_web_report: "printer (web_report fm a)"
  unfolding web_report_def by (rule printer_intros printer_entity_lines)+

lemma printer_logo_report: "printer (logo_report r)"
  unfolding logo_report_def by (rule printer_intros)+

lemma printer_text_lines: "printer (text_lines t)"
  unfolding text_lines_def by (rule printer_intros)+

lemma printer_text_report: "printer (text_report r)"
  unfolding text_report_def by (rule printer_intros printer_text_lines)+

lemma printer_object_lines: "printer (object_lines fm obj)"
  unfolding object_lines_def by (rule printer_intros)+

lemma printer_object_report: "printer (object_report fm objs)"
  unfolding object_report_def by (rule printer_intros printer_object_lines)+

lemma printerD: "printer m \<Longrightarrow> m tr = (fst (m []), tr @ snd (m []))"
  unfolding printer_def by (metis append_Nil fst_conv snd_conv)

lemma printer_events: "printer m \<Longrightarrow> e \<in> set (snd (m [])) \<Longrightarrow> \<exists>str. e = Print str"
  unfolding printer_def by (metis append_Nil snd_conv imageE list.set_map)

section \<open>The run, step by step\<close>

text \<open>
  The run of \<open>annotate\<close>, written out call by call in the source, ends at once when
  the client cannot be constructed, and is otherwise the loading of the image followed by
  the steps of the six categories on the client.
\<close>

lemma printer_report: "printer (report fm c r)"
  by (cases c)
     (simp_all add: printer_labels_report printer_web_report printer_face_report
        printer_logo_report printer_text_report printer_object_report)

lemma report_frame: "report fm c r tr = (fst (report fm c r []), tr @ snd (report fm c r []))"
  by (rule printerD) (rule printer_report)

lemma step_last:
  assumes "\<And>r. rep r = report fm c r"
  shows "bind (call cl c img) rep tr = (step_result fm cl img c, tr @ step_trace fm cl img c)"
proof (cases "cl c img")
  case (Inl e)
  then show ?thesis by (simp add: bind_def call_def step_result_def step_trace_def)
next
  case (Inr r)
  have "report fm c r (tr @ [Call c img]) =
          (fst (report fm c r []), (tr @ [Call c img]) @ snd (report fm c r []))"
    by (rule report_frame)
  with Inr show ?thesis
    by (simp add: bind_def call_def step_result_def step_trace_def assms)
qed

lemma step_then:
  assumes "\<And>r. rep r = report fm c r"
  shows "bind (call cl c img) (\<lambda>r. bind (rep r) (\<lambda>_. k)) tr =
           (if step_ok fm cl img c then k (tr @ step_trace fm cl img c)
            else (step_result fm cl img c, tr @ step_trace fm cl img c))"
proof (cases "cl c img")
  case (Inl e)
  then show ?thesis by (simp add: bind_def call_def step_result_def step_trace_def step_ok_def)
next
  case (Inr r)
  have fr: "report fm c r (tr @ [Call c img]) =
          (fst (report fm c r []), (tr @ [Call c img]) @ snd (report fm c r []))"
    by (rule report_frame)
  show ?thesis
  proof (cases "fst (report fm c r [])")
    case (Inl e)
    with Inr fr show ?thesis
      by (simp add: bind_def call_def step_result_def step_trace_def step_ok_def assms)
  next
    case Inr': (Inr u)
    with Inr fr show ?thesis
      by (simp add: bind_def call_def step_result_def step_trace_def step_ok_def assms)
  qed
qed

lemma detect_and_report_eq:
  "detect_and_report fm cl img tr =
     (steps_result fm cl img categories, tr @ steps_trace fm cl img categories)"
  unfolding detect_and_report_def categories_def
  apply (subst step_then [where c = LabelDetection and fm = fm], simp)
  apply (subst step_then [where c = WebDetection and fm = fm], simp)
  apply (subst step_then [where c = FaceDetection and fm = fm], simp)
  apply (subst step_then [where c = LogoDetection and fm = fm], simp)
  apply (subst step_then [where c = TextDetection and fm = fm], simp)
  apply (subst step_last [where c = ObjectLocalization and fm = fm], simp)
  apply (simp add: step_ok_def)
  done

lemma annotate_no_client:
  assumes "construction w = Inl e"
  shows "annotate fm w path tr = (Inl e, tr)"
  using assms by (simp add: annotate_def image_annotator_client_def lift_def bind_def raise_def)

lemma annotate_remote:
  assumes "construction w = Inr cl" and "prefix ''http'' path \<or> prefix ''gs:'' path"
  shows "annotate fm w path tr =
     (steps_result fm cl (ImageUri path) categories, tr @ steps_trace fm cl (ImageUri path) categories)"
  using assms
  by (simp add: annotate_def image_annotator_client_def lift_def load_image_def bind_def ret_def
        detect_and_report_eq)

lemma annotate_unreadable:
  assumes "construction w = Inr cl" and "\<not> (prefix ''http'' path \<or> prefix ''gs:'' path)"
    and "files w path = None"
  shows "annotate fm w path tr = (Inl (OSError path), tr @ [Open path])"
  using assms
  by (simp add: annotate_def image_annotator_client_def lift_def load_image_def bind_def ret_def
        io_open_read_def)

lemma annotate_local:
  assumes "construction w = Inr cl" and "\<not> (prefix ''http'' path \<or> prefix ''gs:'' path)"
    and "files w path = Some content"
  shows "annotate fm w path tr =
     (steps_result fm cl (ImageContent content) categories,
      tr @ Open path # steps_trace fm cl (ImageContent content) categories)"
  using assms
  by (simp add: annotate_def image_annotator_client_def lift_def load_image_def bind_def ret_def
        io_open_read_def detect_and_report_eq)

lemma calls_of_append: "calls_of (xs @ ys) = calls_of xs @ calls_of ys"
  by (induction xs rule: calls_of.induct) simp_all

lemma opens_of_append: "opens_of (xs @ ys) = opens_of xs @ opens_of ys"
  by (induction xs rule: opens_of.induct) simp_all

lemma calls_of_prints: "(\<And>e. e \<in> set tr \<Longrightarrow> \<exists>str. e = Print str) \<Longrightarrow> calls_of tr = []"
  by (induction tr rule: calls_of.induct) auto

lemma opens_of_prints: "(\<And>e. e \<in> set tr \<Longrightarrow> \<exists>str. e = Print str) \<Longrightarrow> opens_of tr = []"
  by (induction tr rule: opens_of.induct) auto

lemma report_events: "e \<in> set (snd (report fm c r [])) \<Longrightarrow> \<exists>str. e = Print str"
  by (rule printer_events [OF printer_report])

lemma calls_of_step_trace: "calls_of (step_trace fm cl img c) = [(c, img)]"
  unfolding step_trace_def
  by (cases "cl c img") (simp_all add: calls_of_prints report_events)

lemma opens_of_step_trace: "opens_of (step_trace fm cl img c) = []"
  unfolding step_trace_def
  by (cases "cl c img") (simp_all add: opens_of_prints report_events)

lemma opens_of_steps_trace: "opens_of (steps_trace fm cl img cs) = []"
  by (induction cs) (simp_all add: opens_of_append opens_of_step_trace)

lemma calls_of_steps_trace:
  "calls_of (steps_trace fm cl img cs) =
     map (\<lambda>c. (c, img)) (take (Suc (length (takeWhile (step_ok fm cl img) cs))) cs)"
  by (induction cs) (simp_all add: calls_of_append calls_of_step_trace)

lemma steps_result_ok:
  "steps_result fm cl img cs = Inr () \<longleftrightarrow> (\<forall>c\<in>set cs. step_ok fm cl img c)"
  by (induction cs) (auto simp: step_ok_def)

lemma stdout_of_append: "stdout_of (xs @ ys) = stdout_of xs @ stdout_of ys"
  by (simp add: stdout_of_def)

lemma written_printer: "printer m \<Longrightarrow> written m tr = stdout_of (snd (m []))"
  by (subst written_def, subst printerD [of m tr]) (simp_all add: stdout_of_append)

lemma labels_report_no_error: "labels_report fm (r\<lparr>error := e\<rparr>) = labels_report fm r"
  by (simp add: labels_report_def)

lemma service_error_not_index: "service_error r \<noteq> Inl IndexError"
  by (simp add: service_error_def)

lemma face_ok_simple:
  "0 \<le> anger_likelihood f \<Longrightarrow> anger_likelihood f \<le> 5 \<Longrightarrow> 0 \<le> joy_likelihood f \<Longrightarrow>
   joy_likelihood f \<le> 5 \<Longrightarrow> 0 \<le> surprise_likelihood f \<Longrightarrow> surprise_likelihood f \<le> 5 \<Longrightarrow>
   face_ok f"
  by (simp add: face_ok_def valid_ordinal_def)

lemma likelihood_label_nonneg: "0 \<le> i \<Longrightarrow> likelihood_label i = likelihood_name ! nat i"
  by (simp add: likelihood_label_def)

lemma print_likelihood_eq:
  "valid_ordinal i \<Longrightarrow> print_likelihood l i tr = (Inr (), tr @ [Print (l @ likelihood_label i)])"
  by (rule emitsD [OF print_likelihood_ok])

lemma calls_of_steps_trace_image:
  "(c, i) \<in> set (calls_of (steps_trace fm cl img cs)) \<Longrightarrow> i = img"
  by (auto simp: calls_of_steps_trace dest: in_set_takeD)

lemma take_all_ok: "\<forall>c\<in>set cs. P c \<Longrightarrow> take (Suc (length (takeWhile P cs))) cs = cs"
  by (simp add: takeWhile_eq_all_conv [THEN iffD2])

lemma steps_trace_all_ok:
  "\<forall>c\<in>set cs. step_ok fm cl img c \<Longrightarrow> steps_trace fm cl img cs = concat (map (step_trace fm cl img) cs)"
  by (induction cs) simp_all

section \<open>Claim C1: which reports raise on the error field\<close>

text \<open>
  Claim C1 says that, for every response, the face, logo and text reports raise exactly
  when the error message is non-empty. The face report does not: a likelihood ordinal
  that does not index the table raises \<^verbatim>\<open>IndexError\<close> with an empty error
  message.
\<close>

theorem error_policy_counterexample:
  "message (error stray_response) = [] \<and> fst (face_report stray_response []) = Inl IndexError"
  by code_simp

text \<open>
  Claim C1, amended. For every response, the logo and text reports raise exactly when
  the error message is non-empty, with the service's message followed by the pointer to
  the error documentation; so does the face report on every response whose likelihood
  ordinals all index the table. The labels, web and object reports never raise, the
  labels report gives the same result whatever the error field holds, and the web and
  object reports are handed parts of the response that the error field is not in.
\<close>

theorem error_policy:
  "fst (logo_report r tr) = service_error r
   \<and> fst (text_report r tr) = service_error r
   \<and> ((\<forall>f\<in>set (face_annotations r). face_ok f) \<longrightarrow> fst (face_report r tr) = service_error r)
   \<and> (service_error r = Inr ()) = (message (error r) = [])
   \<and> fst (labels_report fm r tr) = Inr ()
   \<and> labels_report fm (r\<lparr>error := e\<rparr>) tr = labels_report fm r tr
   \<and> fst (web_report fm (web_detection r) tr) = Inr ()
   \<and> web_detection (r\<lparr>error := e\<rparr>) = web_detection r
   \<and> fst (object_report fm (localized_object_annotations r) tr) = Inr ()
   \<and> localized_object_annotations (r\<lparr>error := e\<rparr>) = localized_object_annotations r"
proof -
  have "fst (logo_report r tr) = service_error r"
    by (simp add: logo_report_eq)
  moreover have "fst (text_report r tr) = service_error r"
    by (simp add: text_report_eq)
  moreover have "(\<forall>f\<in>set (face_annotations r). face_ok f) \<longrightarrow> fst (face_report r tr) = service_error r"
    by (simp add: face_report_ok)
  moreover have "(service_error r = Inr ()) = (message (error r) = [])"
    by (simp add: service_error_def)
  moreover have "fst (labels_report fm r tr) = Inr ()"
    by (simp add: emitsD [OF labels_report_emits])
  moreover have "labels_report fm (r\<lparr>error := e\<rparr>) tr = labels_report fm r tr"
    by (simp add: labels_report_no_error)
  moreover have "fst (web_report fm (web_detection r) tr) = Inr ()"
    by (simp add: emitsD [OF web_report_emits])
  moreover have "fst (object_report fm (localized_object_annotations r) tr) = Inr ()"
    by (simp add: emitsD [OF object_report_emits])
  ultimately show ?thesis by simp
qed

theorem error_policy_witness:
  "fst (face_report failed_response []) =
     Inl (Exception (''Bad image data.'' @ newline #
       ''For more info on error messages, check: https://cloud.google.com/apis/design/errors''))
   \<and> fst (face_report good_response []) = Inr ()"
proof -
  have "\<forall>f\<in>set (face_annotations failed_response). face_ok f"
    by (simp add: failed_response_def good_response_def face_with_def face_ok_def valid_ordinal_def)
  moreover have "\<forall>f\<in>set (face_annotations good_response). face_ok f"
    by (simp add: good_response_def face_with_def face_ok_def valid_ordinal_def)
  ultimately show ?thesis
    using error_policy [of failed_response "[]"] error_policy [of good_response "[]"]
    by (simp add: service_error_def failed_response_def good_response_def)
qed

section \<open>Claim C2: the remote calls of a run on a local path\<close>

text \<open>
  Claim C2 says that every run on a local image path performs six calls before any error
  can cut the run short. A run whose face response carries an error message ends in the
  face report, after three calls.
\<close>

theorem six_calls_counterexample:
  "\<not> (prefix ''http'' ''cat.jpg'' \<or> prefix ''gs:'' ''cat.jpg'')
   \<and> files face_error_world ''cat.jpg'' = Some ''JPEGDATA''
   \<and> fst (annotate no_floats face_error_world ''cat.jpg'' []) =
       Inl (Exception (''Bad image data.'' @ error_info))
   \<and> calls_of (snd (annotate no_floats face_error_world ''cat.jpg'' [])) =
       [(LabelDetection, ImageContent ''JPEGDATA''), (WebDetection, ImageContent ''JPEGDATA''),
        (FaceDetection, ImageContent ''JPEGDATA'')]"
  by code_simp

text \<open>
  Claim C2, amended. A run on a local image path whose client cannot be constructed ends
  there, with nothing opened and no call made, and a run whose file cannot be opened
  makes no call. Otherwise its calls carry the file's contents and follow the fixed order
  labels, web, faces, logos, text, objects, one per category, up to and including the
  first category whose call or report fails; the run ends normally exactly when no step
  fails, and then it has made exactly the six calls.
\<close>

theorem calls_in_fixed_order:
  assumes "\<not> (prefix ''http'' path \<or> prefix ''gs:'' path)"
  shows "(construction w = Inl e \<longrightarrow> annotate fm w path tr = (Inl e, tr))
   \<and> (construction w = Inr cl \<longrightarrow>
        (files w path = None \<longrightarrow> calls_of (snd (annotate fm w path [])) = [])
        \<and> (files w path = Some content \<longrightarrow>
             calls_of (snd (annotate fm w path [])) =
               map (\<lambda>c. (c, ImageContent content))
                 (take (Suc (length (takeWhile (step_ok fm cl (ImageContent content)) categories)))
                    categories)
             \<and> (fst (annotate fm w path []) = Inr ()) =
                 (\<forall>c\<in>set categories. step_ok fm cl (ImageContent content) c)
             \<and> (fst (annotate fm w path []) = Inr () \<longrightarrow>
                  calls_of (snd (annotate fm w path [])) =
                    [(LabelDetection, ImageContent content), (WebDetection, ImageContent content),
                     (FaceDetection, ImageContent content), (LogoDetection, ImageContent content),
                     (TextDetection, ImageContent content),
                     (ObjectLocalization, ImageContent content)])))"
proof (intro conjI impI)
  assume "construction w = Inl e"
  then show "annotate fm w path tr = (Inl e, tr)"
    by (rule annotate_no_client)
next
  assume "construction w = Inr cl" and "files w path = None"
  then show "calls_of (snd (annotate fm w path [])) = []"
    by (simp add: annotate_unreadable [OF _ assms])
next
  assume cl: "construction w = Inr cl" and f: "files w path = Some content"
  show calls: "calls_of (snd (annotate fm w path [])) =
          map (\<lambda>c. (c, ImageContent content))
            (take (Suc (length (takeWhile (step_ok fm cl (ImageContent content)) categories)))
               categories)"
    by (simp add: annotate_local [OF cl assms f] calls_of_steps_trace)
  show ok: "(fst (annotate fm w path []) = Inr ()) =
            (\<forall>c\<in>set categories. step_ok fm cl (ImageContent content) c)"
    by (simp add: annotate_local [OF cl assms f] steps_result_ok)
  assume "fst (annotate fm w path []) = Inr ()"
  then have "\<forall>c\<in>set categories. step_ok fm cl (ImageContent content) c"
    by (simp only: ok)
  then have "take (Suc (length (takeWhile (step_ok fm cl (ImageContent content)) categories)))
               categories = categories"
    by (rule take_all_ok)
  then show "calls_of (snd (annotate fm w path [])) =
               [(LabelDetection, ImageContent content), (WebDetection, ImageContent content),
                (FaceDetection, ImageContent content), (LogoDetection, ImageContent content),
                (TextDetection, ImageContent content), (ObjectLocalization, ImageContent content)]"
    by (simp only: calls) (simp add: categories_def)
qed

theorem calls_in_fixed_order_witness:
  "calls_of (snd (annotate no_floats good_world ''cat.jpg'' [])) =
     [(LabelDetection, ImageContent ''JPEGDATA''), (WebDetection, ImageContent ''JPEGDATA''),
      (FaceDetection, ImageContent ''JPEGDATA''), (LogoDetection, ImageContent ''JPEGDATA''),
      (TextDetection, ImageContent ''JPEGDATA''), (ObjectLocalization, ImageContent ''JPEGDATA'')]
   \<and> calls_of (snd (annotate no_floats good_world ''dog.jpg'' [])) = []
   \<and> annotate no_floats no_key_world ''cat.jpg'' [] =
       (Inl (DefaultCredentialsError ''File key.json was not found.''), [])"
proof -
  have cat: "\<not> (prefix ''http'' ''cat.jpg'' \<or> prefix ''gs:'' ''cat.jpg'')"
    and dog: "\<not> (prefix ''http'' ''dog.jpg'' \<or> prefix ''gs:'' ''dog.jpg'')"
    by simp_all
  have cat_file: "files good_world ''cat.jpg'' = Some ''JPEGDATA''"
    and dog_file: "files good_world ''dog.jpg'' = None"
    and client: "construction good_world = Inr good_client"
    and no_client: "construction no_key_world =
      Inl (DefaultCredentialsError ''File key.json was not found.'')"
    by (simp_all add: good_world_def no_key_world_def)
  have fin: "fst (annotate no_floats good_world ''cat.jpg'' []) = Inr ()"
    by code_simp
  from calls_in_fixed_order [OF cat, where w = good_world and content = "''JPEGDATA''"
      and fm = no_floats and cl = good_client] client cat_file fin
  have "calls_of (snd (annotate no_floats good_world ''cat.jpg'' [])) =
     [(LabelDetection, ImageContent ''JPEGDATA''), (WebDetection, ImageContent ''JPEGDATA''),
      (FaceDetection, ImageContent ''JPEGDATA''), (LogoDetection, ImageContent ''JPEGDATA''),
      (TextDetection, ImageContent ''JPEGDATA''), (ObjectLocalization, ImageContent ''JPEGDATA'')]"
    by blast
  moreover from calls_in_fixed_order [OF dog, where w = good_world and content = "''JPEGDATA''"
      and fm = no_floats and cl = good_client] client dog_file
  have "calls_of (snd (annotate no_floats good_world ''dog.jpg'' [])) = []"
    by blast
  moreover from calls_in_fixed_order [OF cat, where w = no_key_world and fm = no_floats
      and e = "DefaultCredentialsError ''File key.json was not found.''" and tr = "[]"] no_client
  have "annotate no_floats no_key_world ''cat.jpg'' [] =
       (Inl (DefaultCredentialsError ''File key.json was not found.''), [])"
    by blast
  ultimately show ?thesis by (intro conjI)
qed

section \<open>Claim C3: remote reference or local file\<close>

text \<open>
  Claim C3 says that, for every input string, \<open>annotate\<close> opens the string as a local
  file unless it starts with \<^verbatim>\<open>http\<close> or \<^verbatim>\<open>gs:\<close>. The client is constructed
  before the string is looked at: where the construction raises, a local path with a
  readable file is never opened.
\<close>

theorem input_classification_counterexample:
  "\<not> (prefix ''http'' ''cat.jpg'' \<or> prefix ''gs:'' ''cat.jpg'')
   \<and> files no_key_world ''cat.jpg'' = Some ''JPEGDATA''
   \<and> annotate no_floats no_key_world ''cat.jpg'' [] =
       (Inl (DefaultCredentialsError ''File key.json was not found.''), [])"
  by code_simp

text \<open>
  Claim C3, amended. When the construction of the client fails, the run ends there and
  the input is not looked at. Otherwise a path that starts with \<^verbatim>\<open>http\<close> or
  \<^verbatim>\<open>gs:\<close> becomes a URI image: no file is opened, and every call of the run carries
  that URI; every other path is opened as a local file, once: if it cannot be opened the
  run fails there, and otherwise the image is the whole contents of the file, which every
  call of the run carries. A file is opened exactly when the path has neither prefix. The
  loading of the image itself, \<open>load_image\<close>, does this in every world.
\<close>

theorem input_classification:
  "(prefix ''http'' path \<or> prefix ''gs:'' path \<longrightarrow>
      load_image w path tr = (Inr (ImageUri path), tr))
   \<and> (\<not> (prefix ''http'' path \<or> prefix ''gs:'' path) \<longrightarrow>
      (case files w path of
         None \<Rightarrow> load_image w path tr = (Inl (OSError path), tr @ [Open path])
       | Some content \<Rightarrow> load_image w path tr = (Inr (ImageContent content), tr @ [Open path])))
   \<and> (construction w = Inl e \<longrightarrow> annotate fm w path tr = (Inl e, tr))
   \<and> (construction w = Inr cl \<longrightarrow>
      (opens_of (snd (annotate fm w path [])) = []) = (prefix ''http'' path \<or> prefix ''gs:'' path)
      \<and> (prefix ''http'' path \<or> prefix ''gs:'' path \<longrightarrow>
           (\<forall>c i. (c, i) \<in> set (calls_of (snd (annotate fm w path []))) \<longrightarrow> i = ImageUri path))
      \<and> (\<not> (prefix ''http'' path \<or> prefix ''gs:'' path) \<longrightarrow>
           opens_of (snd (annotate fm w path [])) = [path]
           \<and> (case files w path of
                None \<Rightarrow> annotate fm w path tr = (Inl (OSError path), tr @ [Open path])
              | Some content \<Rightarrow>
                  (\<forall>c i. (c, i) \<in> set (calls_of (snd (annotate fm w path []))) \<longrightarrow>
                         i = ImageContent content))))"
proof -
  let ?remote = "prefix ''http'' path \<or> prefix ''gs:'' path"
  have load_remote: "load_image w path tr = (Inr (ImageUri path), tr)" if ?remote
    using that by (simp add: load_image_def ret_def)
  have load_local: "case files w path of
         None \<Rightarrow> load_image w path tr = (Inl (OSError path), tr @ [Open path])
       | Some content \<Rightarrow> load_image w path tr = (Inr (ImageContent content), tr @ [Open path])"
    if "\<not> ?remote"
    using that
    by (cases "files w path") (simp_all add: load_image_def bind_def ret_def io_open_read_def)
  have no_client: "annotate fm w path tr = (Inl e, tr)" if "construction w = Inl e"
    using that by (rule annotate_no_client)
  have run: "(opens_of (snd (annotate fm w path [])) = []) = ?remote
      \<and> (?remote \<longrightarrow>
           (\<forall>c i. (c, i) \<in> set (calls_of (snd (annotate fm w path []))) \<longrightarrow> i = ImageUri path))
      \<and> (\<not> ?remote \<longrightarrow>
           opens_of (snd (annotate fm w path [])) = [path]
           \<and> (case files w path of
                None \<Rightarrow> annotate fm w path tr = (Inl (OSError path), tr @ [Open path])
              | Some content \<Rightarrow>
                  (\<forall>c i. (c, i) \<in> set (calls_of (snd (annotate fm w path []))) \<longrightarrow>
                         i = ImageContent content)))"
    if cl: "construction w = Inr cl"
  proof (cases ?remote)
    case True
    have "opens_of (snd (annotate fm w path [])) = []"
      by (simp add: annotate_remote [OF cl True] opens_of_steps_trace)
    moreover have "\<forall>c i. (c, i) \<in> set (calls_of (snd (annotate fm w path []))) \<longrightarrow> i = ImageUri path"
      by (simp add: annotate_remote [OF cl True]) (blast dest: calls_of_steps_trace_image)
    ultimately show ?thesis using True by simp
  next
    case False
    show ?thesis
    proof (cases "files w path")
      case None
      have "annotate fm w path tr = (Inl (OSError path), tr @ [Open path])" for tr
        by (rule annotate_unreadable [OF cl False None])
      then show ?thesis using False None by simp
    next
      case (Some content)
      have "opens_of (snd (annotate fm w path [])) = [path]"
        by (simp add: annotate_local [OF cl False Some] opens_of_steps_trace)
      moreover have "\<forall>c i. (c, i) \<in> set (calls_of (snd (annotate fm w path []))) \<longrightarrow>
                      i = ImageContent content"
        by (simp add: annotate_local [OF cl False Some]) (blast dest: calls_of_steps_trace_image)
      ultimately show ?thesis using False Some by simp
    qed
  qed
  from load_remote load_local no_client run show ?thesis by blast
qed

theorem input_classification_witness:
  "load_image good_world ''gs://bucket/cat.jpg'' [] = (Inr (ImageUri ''gs://bucket/cat.jpg''), [])
   \<and> opens_of (snd (annotate no_floats good_world ''http://host/cat.jpg'' [])) = []
   \<and> load_image good_world ''cat.jpg'' [] = (Inr (ImageContent ''JPEGDATA''), [Open ''cat.jpg''])
   \<and> opens_of (snd (annotate no_floats good_world ''cat.jpg'' [])) = [''cat.jpg'']
   \<and> annotate no_floats good_world ''dog.jpg'' [] = (Inl (OSError ''dog.jpg''), [Open ''dog.jpg''])
   \<and> annotate no_floats no_key_world ''http://host/cat.jpg'' [] =
       (Inl (DefaultCredentialsError ''File key.json was not found.''), [])"
proof -
  have "prefix ''gs:'' ''gs://bucket/cat.jpg''" and "prefix ''http'' ''http://host/cat.jpg''"
    and "\<not> (prefix ''http'' ''cat.jpg'' \<or> prefix ''gs:'' ''cat.jpg'')"
    and "\<not> (prefix ''http'' ''dog.jpg'' \<or> prefix ''gs:'' ''dog.jpg'')"
    by simp_all
  moreover have "files good_world ''cat.jpg'' = Some ''JPEGDATA''"
    and "files good_world ''dog.jpg'' = None"
    and "construction good_world = Inr good_client"
    and "construction no_key_world = Inl (DefaultCredentialsError ''File key.json was not found.'')"
    by (simp_all add: good_world_def no_key_world_def)
  ultimately show ?thesis
    using input_classification [where path = "''gs://bucket/cat.jpg''" and w = good_world
        and tr = "[]" and fm = no_floats and cl = good_client]
      input_classification [where path = "''http://host/cat.jpg''" and w = good_world
        and tr = "[]" and fm = no_floats and cl = good_client]
      input_classification [where path = "''cat.jpg''" and w = good_world
        and tr = "[]" and fm = no_floats and cl = good_client]
      input_classification [where path = "''dog.jpg''" and w = good_world
        and tr = "[]" and fm = no_floats and cl = good_client]
      input_classification [where path = "''http://host/cat.jpg''" and w = no_key_world
        and tr = "[]" and fm = no_floats
        and e = "DefaultCredentialsError ''File key.json was not found.''"]
    by simp
qed

section \<open>Claim C4: the run is strictly sequential\<close>

text \<open>
  Claim C4 says that the service is called six times, each call followed by its own
  report. A run whose web call raises has called the service twice, and its second call
  is followed by no report.
\<close>

theorem annotate_sequential_counterexample:
  "annotate no_floats web_down_world ''cat.jpg'' [] =
     (Inl (ClientError ''503 Service Unavailable''),
      [Open ''cat.jpg'',
       Call LabelDetection (ImageContent ''JPEGDATA''),
       Print (newline # ''Labels (and confidence score):''), Print separator,
       Call WebDetection (ImageContent ''JPEGDATA'')])"
  by code_simp

text \<open>
  Claim C4, amended. Control flow is strictly sequential. A run whose client cannot be
  constructed ends there. Otherwise the trace of the run is the loading of the image, at
  most one file opened, followed by the steps of the categories in their fixed order, all
  on the same image, ended by the first step that fails; a run that ends normally is the
  loading followed by all six steps. A step whose call returns is the call followed at once
  by what the category's own report prints for the response, a step whose call raises is
  the call alone, and a report appends nothing but printed lines, so that no call stands
  between a call and its report.
\<close>

theorem annotate_sequential:
  "(construction w = Inl e \<longrightarrow> annotate fm w path tr = (Inl e, tr))
   \<and> (construction w = Inr cl \<longrightarrow>
        snd (annotate fm w path tr) =
          tr @ (if prefix ''http'' path \<or> prefix ''gs:'' path
                then steps_trace fm cl (ImageUri path) categories
                else Open path # (case files w path of
                                    None \<Rightarrow> []
                                  | Some content \<Rightarrow>
                                      steps_trace fm cl (ImageContent content) categories))
        \<and> (fst (annotate fm w path tr) = Inr () \<longrightarrow>
             (\<exists>img. snd (annotate fm w path tr) =
                tr @ (if prefix ''http'' path \<or> prefix ''gs:'' path then [] else [Open path])
                   @ step_trace fm cl img LabelDetection @ step_trace fm cl img WebDetection
                   @ step_trace fm cl img FaceDetection @ step_trace fm cl img LogoDetection
                   @ step_trace fm cl img TextDetection @ step_trace fm cl img ObjectLocalization)))
   \<and> (cl c img = Inr r \<longrightarrow>
        step_trace fm cl img c = Call c img # snd (report fm c r [])
        \<and> (\<forall>ev\<in>set (snd (report fm c r [])). \<exists>str. ev = Print str)
        \<and> report fm c r tr = (fst (report fm c r []), tr @ snd (report fm c r [])))
   \<and> (cl c img = Inl e \<longrightarrow> step_trace fm cl img c = [Call c img])
   \<and> length (opens_of (snd (annotate fm w path []))) \<le> 1"
proof -
  let ?remote = "prefix ''http'' path \<or> prefix ''gs:'' path"
  have no_client: "annotate fm w path tr = (Inl e, tr)" if "construction w = Inl e" for e tr
    using that by (rule annotate_no_client)
  have shape: "snd (annotate fm w path tr) =
     tr @ (if ?remote then steps_trace fm cl (ImageUri path) categories
           else Open path # (case files w path of
                               None \<Rightarrow> []
                             | Some content \<Rightarrow> steps_trace fm cl (ImageContent content) categories))"
    if cl: "construction w = Inr cl" for tr cl
  proof (cases ?remote)
    case True
    then show ?thesis by (simp add: annotate_remote [OF cl])
  next
    case False
    then show ?thesis
      by (cases "files w path") (simp_all add: annotate_unreadable [OF cl] annotate_local [OF cl])
  qed
  have full: "\<exists>img. snd (annotate fm w path tr) =
           tr @ (if ?remote then [] else [Open path])
              @ step_trace fm cl img LabelDetection @ step_trace fm cl img WebDetection
              @ step_trace fm cl img FaceDetection @ step_trace fm cl img LogoDetection
              @ step_trace fm cl img TextDetection @ step_trace fm cl img ObjectLocalization"
    if cl: "construction w = Inr cl" and fin: "fst (annotate fm w path tr) = Inr ()"
  proof (cases ?remote)
    case True
    from fin have "\<forall>c\<in>set categories. step_ok fm cl (ImageUri path) c"
      by (simp add: annotate_remote [OF cl True] steps_result_ok)
    then have "steps_trace fm cl (ImageUri path) categories =
        concat (map (step_trace fm cl (ImageUri path)) categories)"
      by (rule steps_trace_all_ok)
    then have "snd (annotate fm w path tr) =
        tr @ concat (map (step_trace fm cl (ImageUri path)) categories)"
      by (simp add: annotate_remote [OF cl True])
    with True show ?thesis by (intro exI [of _ "ImageUri path"]) (simp add: categories_def)
  next
    case False
    from fin obtain content where f: "files w path = Some content"
      by (cases "files w path") (simp_all add: annotate_unreadable [OF cl False])
    from fin have "\<forall>c\<in>set categories. step_ok fm cl (ImageContent content) c"
      by (simp add: annotate_local [OF cl False f] steps_result_ok)
    then have "steps_trace fm cl (ImageContent content) categories =
        concat (map (step_trace fm cl (ImageContent content)) categories)"
      by (rule steps_trace_all_ok)
    then have "snd (annotate fm w path tr) =
        tr @ Open path # concat (map (step_trace fm cl (ImageContent content)) categories)"
      by (simp add: annotate_local [OF cl False f])
    with False show ?thesis by (intro exI [of _ "ImageContent content"]) (simp add: categories_def)
  qed
  have step: "step_trace fm cl img c = Call c img # snd (report fm c r [])
        \<and> (\<forall>ev\<in>set (snd (report fm c r [])). \<exists>str. ev = Print str)
        \<and> report fm c r tr = (fst (report fm c r []), tr @ snd (report fm c r []))"
    if "cl c img = Inr r"
    using that report_frame [of fm c r tr] by (auto simp: step_trace_def dest: report_events)
  have failed: "step_trace fm cl img c = [Call c img]" if "cl c img = Inl e"
    using that by (simp add: step_trace_def)
  have once: "length (opens_of (snd (annotate fm w path []))) \<le> 1"
  proof (cases "construction w")
    case (Inl e')
    then show ?thesis by (simp add: no_client)
  next
    case (Inr cl')
    then show ?thesis
      by (cases "files w path") (simp_all add: shape [of cl' "[]"] opens_of_steps_trace)
  qed
  from no_client shape full step failed once show ?thesis by blast
qed

theorem annotate_sequential_witness:
  "snd (annotate no_floats good_world ''cat.jpg'' []) =
     [Open ''cat.jpg'',
      Call LabelDetection (ImageContent ''JPEGDATA''),
      Print (newline # ''Labels (and confidence score):''), Print separator,
      Call WebDetection (ImageContent ''JPEGDATA''),
      Print (newline # ''Web entities (and relevancy score):''), Print separator,
      Print (newline # ''2 Pages with matching images retrieved''),
      Print ''Url   : http://a/1'', Print ''Url   : http://b/2'',
      Call FaceDetection (ImageContent ''JPEGDATA''),
      Print (newline # ''Faces:''), Print separator,
      Print ''anger: POSSIBLE'', Print ''joy: UNKNOWN'', Print ''surprise: VERY_LIKELY'',
      Print ''face bounds: (10,20),(110,20),(110,120),(10,120)'',
      Call LogoDetection (ImageContent ''JPEGDATA''),
      Print (newline # ''Logos:''), Print separator, Print ''acme'',
      Call TextDetection (ImageContent ''JPEGDATA''),
      Print (newline # ''Texts:''), Print separator,
      Print (newline # CHR 0x22 # ''Hi'' @ [CHR 0x22]),
      Print ''bounds: (10,20),(110,20),(110,120),(10,120)'',
      Call ObjectLocalization (ImageContent ''JPEGDATA''),
      Print (newline # ''Objects:''), Print separator, Print ''Number of objects found: 0'']
   \<and> annotate no_floats no_key_world ''cat.jpg'' [] =
       (Inl (DefaultCredentialsError ''File key.json was not found.''), [])"
proof -
  have loc: "\<not> (prefix ''http'' ''cat.jpg'' \<or> prefix ''gs:'' ''cat.jpg'')" by simp
  have cat_file: "files good_world ''cat.jpg'' = Some ''JPEGDATA''"
    and client: "construction good_world = Inr good_client"
    and no_client: "construction no_key_world =
      Inl (DefaultCredentialsError ''File key.json was not found.'')"
    by (simp_all add: good_world_def no_key_world_def)
  have steps: "steps_trace no_floats good_client (ImageContent ''JPEGDATA'') categories =
     [Call LabelDetection (ImageContent ''JPEGDATA''),
      Print (newline # ''Labels (and confidence score):''), Print separator,
      Call WebDetection (ImageContent ''JPEGDATA''),
      Print (newline # ''Web entities (and relevancy score):''), Print separator,
      Print (newline # ''2 Pages with matching images retrieved''),
      Print ''Url   : http://a/1'', Print ''Url   : http://b/2'',
      Call FaceDetection (ImageContent ''JPEGDATA''),
      Print (newline # ''Faces:''), Print separator,
      Print ''anger: POSSIBLE'', Print ''joy: UNKNOWN'', Print ''surprise: VERY_LIKELY'',
      Print ''face bounds: (10,20),(110,20),(110,120),(10,120)'',
      Call LogoDetection (ImageContent ''JPEGDATA''),
      Print (newline # ''Logos:''), Print separator, Print ''acme'',
      Call TextDetection (ImageContent ''JPEGDATA''),
      Print (newline # ''Texts:''), Print separator,
      Print (newline # CHR 0x22 # ''Hi'' @ [CHR 0x22]),
      Print ''bounds: (10,20),(110,20),(110,120),(10,120)'',
      Call ObjectLocalization (ImageContent ''JPEGDATA''),
      Print (newline # ''Objects:''), Print separator, Print ''Number of objects found: 0'']"
    by code_simp
  from annotate_sequential [where fm = no_floats and w = good_world and cl = good_client
      and path = "''cat.jpg''" and tr = "[]"] client
  have "snd (annotate no_floats good_world ''cat.jpg'' []) =
      [] @ (if prefix ''http'' ''cat.jpg'' \<or> prefix ''gs:'' ''cat.jpg''
            then steps_trace no_floats good_client (ImageUri ''cat.jpg'') categories
            else Open ''cat.jpg'' # (case files good_world ''cat.jpg'' of
                                    None \<Rightarrow> []
                                  | Some content \<Rightarrow>
                                      steps_trace no_floats good_client (ImageContent content)
                                        categories))"
    by blast
  then have run: "snd (annotate no_floats good_world ''cat.jpg'' []) =
      Open ''cat.jpg'' # steps_trace no_floats good_client (ImageContent ''JPEGDATA'') categories"
    using loc by (simp only: cat_file if_False option.case append_Nil)
  from annotate_sequential [where fm = no_floats and w = no_key_world
      and e = "DefaultCredentialsError ''File key.json was not found.''"
      and path = "''cat.jpg''" and tr = "[]"] no_client
  have "annotate no_floats no_key_world ''cat.jpg'' [] =
       (Inl (DefaultCredentialsError ''File key.json was not found.''), [])"
    by blast
  with run show ?thesis by (simp only: steps simp_thms)
qed

section \<open>Claim C5: the likelihood table\<close>

text \<open>
  Claim C5. The face report renders each likelihood through the table of six names, by
  position: ordinal 3 is printed as \<^verbatim>\<open>POSSIBLE\<close> and ordinal 0 as \<^verbatim>\<open>UNKNOWN\<close>,
  whatever the field, and a face whose three ordinals lie between 0 and 5 prints the
  three names at those positions, then its bounds. On a response whose faces all have
  their ordinals between 0 and 5, the report prints its header, its separator and these
  four lines for each face.
\<close>

theorem likelihood_table:
  "likelihood_name =
     [''UNKNOWN'', ''VERY_UNLIKELY'', ''UNLIKELY'', ''POSSIBLE'', ''LIKELY'', ''VERY_LIKELY'']
   \<and> print_likelihood l 3 tr = (Inr (), tr @ [Print (l @ ''POSSIBLE'')])
   \<and> print_likelihood l 0 tr = (Inr (), tr @ [Print (l @ ''UNKNOWN'')])
   \<and> (0 \<le> anger_likelihood f \<and> anger_likelihood f \<le> 5
        \<and> 0 \<le> joy_likelihood f \<and> joy_likelihood f \<le> 5
        \<and> 0 \<le> surprise_likelihood f \<and> surprise_likelihood f \<le> 5 \<longrightarrow>
      face_lines f tr =
        (Inr (),
         tr @ [Print (''anger: '' @ likelihood_name ! nat (anger_likelihood f)),
               Print (''joy: '' @ likelihood_name ! nat (joy_likelihood f)),
               Print (''surprise: '' @ likelihood_name ! nat (surprise_likelihood f)),
               Print (''face bounds: ''
                        @ join '','' (map format_vertex (vertices (face_bounding_poly f))))]))
   \<and> ((\<forall>f\<in>set (face_annotations r).
          0 \<le> anger_likelihood f \<and> anger_likelihood f \<le> 5
          \<and> 0 \<le> joy_likelihood f \<and> joy_likelihood f \<le> 5
          \<and> 0 \<le> surprise_likelihood f \<and> surprise_likelihood f \<le> 5) \<longrightarrow>
      snd (face_report r tr) =
        tr @ [Print (newline # ''Faces:''), Print separator]
           @ concat (map (\<lambda>f.
               [Print (''anger: '' @ likelihood_name ! nat (anger_likelihood f)),
                Print (''joy: '' @ likelihood_name ! nat (joy_likelihood f)),
                Print (''surprise: '' @ likelihood_name ! nat (surprise_likelihood f)),
                Print (''face bounds: ''
                         @ join '','' (map format_vertex (vertices (face_bounding_poly f))))])
               (face_annotations r)))"
proof -
  have "print_likelihood l 3 tr = (Inr (), tr @ [Print (l @ ''POSSIBLE'')])"
    by (simp add: print_likelihood_eq valid_ordinal_def likelihood_label_def likelihood_name_def)
  moreover have "print_likelihood l 0 tr = (Inr (), tr @ [Print (l @ ''UNKNOWN'')])"
    by (simp add: print_likelihood_eq valid_ordinal_def likelihood_label_def likelihood_name_def)
  moreover have "face_lines f tr =
        (Inr (),
         tr @ [Print (''anger: '' @ likelihood_name ! nat (anger_likelihood f)),
               Print (''joy: '' @ likelihood_name ! nat (joy_likelihood f)),
               Print (''surprise: '' @ likelihood_name ! nat (surprise_likelihood f)),
               Print (''face bounds: ''
                        @ join '','' (map format_vertex (vertices (face_bounding_poly f))))])"
    if "0 \<le> anger_likelihood f" "anger_likelihood f \<le> 5"
       "0 \<le> joy_likelihood f" "joy_likelihood f \<le> 5"
       "0 \<le> surprise_likelihood f" "surprise_likelihood f \<le> 5"
  proof -
    have "face_ok f" using that by (rule face_ok_simple)
    then have "face_lines f tr = (Inr (), tr @ face_block f)"
      by (rule emitsD [OF face_lines_ok])
    then show ?thesis
      using that by (simp only: face_block_def likelihood_label_nonneg)
  qed
  moreover have "snd (face_report r tr) =
        tr @ [Print (newline # ''Faces:''), Print separator]
           @ concat (map (\<lambda>f.
               [Print (''anger: '' @ likelihood_name ! nat (anger_likelihood f)),
                Print (''joy: '' @ likelihood_name ! nat (joy_likelihood f)),
                Print (''surprise: '' @ likelihood_name ! nat (surprise_likelihood f)),
                Print (''face bounds: ''
                         @ join '','' (map format_vertex (vertices (face_bounding_poly f))))])
               (face_annotations r))"
    if inside: "\<forall>f\<in>set (face_annotations r).
          0 \<le> anger_likelihood f \<and> anger_likelihood f \<le> 5
          \<and> 0 \<le> joy_likelihood f \<and> joy_likelihood f \<le> 5
          \<and> 0 \<le> surprise_likelihood f \<and> surprise_likelihood f \<le> 5"
  proof -
    from inside have "\<forall>f\<in>set (face_annotations r). face_ok f"
      by (simp add: face_ok_simple)
    then have "snd (face_report r tr) = tr @ face_section r"
      by (simp add: face_report_ok)
    moreover have "map face_block (face_annotations r) =
        map (\<lambda>f.
               [Print (''anger: '' @ likelihood_name ! nat (anger_likelihood f)),
                Print (''joy: '' @ likelihood_name ! nat (joy_likelihood f)),
                Print (''surprise: '' @ likelihood_name ! nat (surprise_likelihood f)),
                Print (''face bounds: ''
                         @ join '','' (map format_vertex (vertices (face_bounding_poly f))))])
          (face_annotations r)"
      using inside by (intro map_cong refl) (simp only: face_block_def likelihood_label_nonneg)
    ultimately show ?thesis by (simp only: face_section_def)
  qed
  ultimately show ?thesis by (simp add: likelihood_name_def)
qed

theorem likelihood_table_witness:
  "face_lines (face_with 3 0 5) [] =
     (Inr (), [Print ''anger: POSSIBLE'', Print ''joy: UNKNOWN'', Print ''surprise: VERY_LIKELY'',
               Print ''face bounds: (10,20),(110,20),(110,120),(10,120)''])
   \<and> snd (face_report good_response []) =
     [Print (newline # ''Faces:''), Print separator,
      Print ''anger: POSSIBLE'', Print ''joy: UNKNOWN'', Print ''surprise: VERY_LIKELY'',
      Print ''face bounds: (10,20),(110,20),(110,120),(10,120)'']"
proof -
  have bounds: "join '','' (map format_vertex (vertices box)) = ''(10,20),(110,20),(110,120),(10,120)''"
    by code_simp
  have inside: "0 \<le> anger_likelihood (face_with 3 0 5) \<and> anger_likelihood (face_with 3 0 5) \<le> 5
      \<and> 0 \<le> joy_likelihood (face_with 3 0 5) \<and> joy_likelihood (face_with 3 0 5) \<le> 5
      \<and> 0 \<le> surprise_likelihood (face_with 3 0 5) \<and> surprise_likelihood (face_with 3 0 5) \<le> 5"
    by (simp add: face_with_def)
  then have all_inside: "\<forall>f\<in>set (face_annotations good_response).
      0 \<le> anger_likelihood f \<and> anger_likelihood f \<le> 5
      \<and> 0 \<le> joy_likelihood f \<and> joy_likelihood f \<le> 5
      \<and> 0 \<le> surprise_likelihood f \<and> surprise_likelihood f \<le> 5"
    by (simp add: good_response_def)
  note table = likelihood_table [where l = "[]" and tr = "[]" and f = "face_with 3 0 5"
      and r = good_response]
  from table inside have "face_lines (face_with 3 0 5) [] =
      (Inr (),
       [] @ [Print (''anger: '' @ likelihood_name ! nat (anger_likelihood (face_with 3 0 5))),
             Print (''joy: '' @ likelihood_name ! nat (joy_likelihood (face_with 3 0 5))),
             Print (''surprise: '' @ likelihood_name ! nat (surprise_likelihood (face_with 3 0 5))),
             Print (''face bounds: ''
                      @ join '','' (map format_vertex
                          (vertices (face_bounding_poly (face_with 3 0 5)))))])"
    by blast
  then have lines: "face_lines (face_with 3 0 5) [] =
     (Inr (), [Print ''anger: POSSIBLE'', Print ''joy: UNKNOWN'', Print ''surprise: VERY_LIKELY'',
               Print ''face bounds: (10,20),(110,20),(110,120),(10,120)''])"
    by (simp add: face_with_def likelihood_name_def bounds)
  from table all_inside have "snd (face_report good_response []) =
        [] @ [Print (newline # ''Faces:''), Print separator]
           @ concat (map (\<lambda>f.
               [Print (''anger: '' @ likelihood_name ! nat (anger_likelihood f)),
                Print (''joy: '' @ likelihood_name ! nat (joy_likelihood f)),
                Print (''surprise: '' @ likelihood_name ! nat (surprise_likelihood f)),
                Print (''face bounds: ''
                         @ join '','' (map format_vertex (vertices (face_bounding_poly f))))])
               (face_annotations good_response))"
    by blast
  then have "snd (face_report good_response []) =
     [Print (newline # ''Faces:''), Print separator,
      Print ''anger: POSSIBLE'', Print ''joy: UNKNOWN'', Print ''surprise: VERY_LIKELY'',
      Print ''face bounds: (10,20),(110,20),(110,120),(10,120)'']"
    by (simp add: good_response_def face_with_def likelihood_name_def bounds)
  with lines show ?thesis by (rule conjI)
qed

section \<open>Claim C7: the pages block of the web report\<close>

text \<open>
  Claim C7. The web report prints its header and separator, then the block of the pages
  with matching images, then the rest, which does not depend on the pages. The block is
  empty when there is no page; otherwise it is the line with the number of pages followed
  by one URL line for each page. The number is printed as the decimal numeral of the
  length of the collection: digits only, with no leading zero, of that value.
\<close>

theorem web_pages_block:
  "web_report fm a tr =
     (Inr (),
      tr @ [Print (newline # ''Web entities (and relevancy score):''), Print separator]
         @ (if pages_with_matching_images a = [] then []
            else Print (newline # str_nat (length (pages_with_matching_images a))
                          @ '' Pages with matching images retrieved'')
                 # map (\<lambda>p. Print (''Url   : '' @ page_url p)) (pages_with_matching_images a))
         @ web_rest fm a)
   \<and> web_rest fm (a\<lparr>pages_with_matching_images := ps\<rparr>) = web_rest fm a
   \<and> decimal_value (str_nat n) = n
   \<and> (\<forall>ch\<in>set (str_nat n). ch \<in> set ''0123456789'')
   \<and> str_nat n \<noteq> []
   \<and> (hd (str_nat n) = CHR ''0'' \<longrightarrow> n = 0)"
proof -
  have val_eq: "decimal_value (str_nat n) = n" for n
  proof (induction n rule: str_nat.induct)
    case (1 n)
    show ?case
    proof (cases "n < 10")
      case True
      then show ?thesis
        by (subst str_nat.simps) (simp add: decimal_value_def digit_value_digit_char)
    next
      case False
      with "1" have "decimal_value (str_nat (n div 10)) = n div 10" by simp
      with False show ?thesis
        by (subst str_nat.simps) (simp add: decimal_value_snoc digit_value_digit_char)
    qed
  qed
  have digits: "ch \<in> set (str_nat n) \<Longrightarrow> ch \<in> set ''0123456789''" for n ch
  proof (induction n rule: str_nat.induct)
    case (1 n)
    show ?case
    proof (cases "n < 10")
      case True
      with "1.prems" have "ch = digit_char n"
        by (subst (asm) str_nat.simps) simp
      with True show ?thesis by (simp only: digit_char_digit)
    next
      case False
      with "1.prems" have "ch \<in> set (str_nat (n div 10)) \<or> ch = digit_char (n mod 10)"
        by (subst (asm) str_nat.simps) auto
      then show ?thesis
      proof
        assume "ch \<in> set (str_nat (n div 10))"
        with "1.IH" False show ?thesis by simp
      next
        assume "ch = digit_char (n mod 10)"
        then show ?thesis by (simp only: digit_char_digit [of "n mod 10"] mod_less_divisor zero_less_numeral)
      qed
    qed
  qed
  have leading: "hd (str_nat n) = CHR ''0'' \<Longrightarrow> n = 0" for n
  proof (induction n rule: str_nat.induct)
    case (1 n)
    show ?case
    proof (cases "n < 10")
      case True
      with "1.prems" have "digit_char n = CHR ''0''"
        by (subst (asm) str_nat.simps) simp
      with True show ?thesis by (rule digit_char_zero)
    next
      case False
      with "1.prems" have "hd (str_nat (n div 10)) = CHR ''0''"
        by (subst (asm) str_nat.simps) (simp add: str_nat_nonempty)
      with "1.IH" False have "n div 10 = 0" by simp
      with False show ?thesis by simp
    qed
  qed
  have "pages_block ps = (if ps = [] then []
            else Print (newline # str_nat (length ps) @ '' Pages with matching images retrieved'')
                 # map (\<lambda>p. Print (''Url   : '' @ page_url p)) ps)" for ps
    unfolding pages_block_def counted_block_def by (simp add: concat_map_singleton)
  then have "web_report fm a tr = (Inr (),
      tr @ [Print (newline # ''Web entities (and relevancy score):''), Print separator]
         @ (if pages_with_matching_images a = [] then []
            else Print (newline # str_nat (length (pages_with_matching_images a))
                          @ '' Pages with matching images retrieved'')
                 # map (\<lambda>p. Print (''Url   : '' @ page_url p)) (pages_with_matching_images a))
         @ web_rest fm a)"
    by (simp only: emitsD [OF web_report_emits] web_section_def)
  moreover have "web_rest fm (a\<lparr>pages_with_matching_images := ps\<rparr>) = web_rest fm a"
    by (simp add: web_rest_def)
  moreover have "decimal_value (str_nat n) = n"
    by (rule val_eq)
  moreover have "\<forall>ch\<in>set (str_nat n). ch \<in> set ''0123456789''"
    by (blast intro: digits)
  moreover have "str_nat n \<noteq> []"
    by (rule str_nat_nonempty)
  moreover have "hd (str_nat n) = CHR ''0'' \<longrightarrow> n = 0"
    by (blast intro: leading)
  ultimately show ?thesis by (intro conjI)
qed

theorem web_pages_block_witness:
  "web_report no_floats (web_detection good_response) [] =
     (Inr (),
      [Print (newline # ''Web entities (and relevancy score):''), Print separator,
       Print (newline # ''2 Pages with matching images retrieved''),
       Print ''Url   : http://a/1'', Print ''Url   : http://b/2''])
   \<and> web_report no_floats no_web [] =
     (Inr (), [Print (newline # ''Web entities (and relevancy score):''), Print separator])
   \<and> web_report no_floats twelve_pages [] =
     (Inr (),
      [Print (newline # ''Web entities (and relevancy score):''), Print separator,
       Print (newline # ''12 Pages with matching images retrieved'')]
      @ replicate 12 (Print ''Url   : http://a/1''))
   \<and> str_nat 0 = ''0'' \<and> str_nat 7 = ''7'' \<and> str_nat 120 = ''120''
   \<and> decimal_value ''120'' = 120"
proof -
  have "web_rest no_floats (web_detection good_response) = []"
    and "web_rest no_floats no_web = []"
    and "web_rest no_floats twelve_pages = []"
    and "str_nat (length (pages_with_matching_images (web_detection good_response))) = ''2''"
    and "str_nat (length (pages_with_matching_images twelve_pages)) = ''12''"
    and "map (\<lambda>p. Print (''Url   : '' @ page_url p)) (pages_with_matching_images twelve_pages) =
         replicate 12 (Print ''Url   : http://a/1'')"
    and "pages_with_matching_images twelve_pages \<noteq> []"
    by code_simp+
  moreover have "str_nat 0 = ''0''" and "str_nat 7 = ''7''" and "str_nat 120 = ''120''"
    by code_simp+
  ultimately show ?thesis
    using web_pages_block [where fm = no_floats and a = "web_detection good_response"
        and tr = "[]" and n = 120]
      web_pages_block [where fm = no_floats and a = no_web and tr = "[]"]
      web_pages_block [where fm = no_floats and a = twelve_pages and tr = "[]"]
    by (simp add: good_response_def no_web_def)
qed

section \<open>Claim C8: the reports are deterministic\<close>

text \<open>
  Claim C8. For each of the six reports and every response, two invocations, whatever
  was printed before each, end with the same result and write the same text.
\<close>

theorem reports_deterministic:
  "fst (labels_report fm r tr1) = fst (labels_report fm r tr2)
   \<and> written (labels_report fm r) tr1 = written (labels_report fm r) tr2
   \<and> fst (web_report fm a tr1) = fst (web_report fm a tr2)
   \<and> written (web_report fm a) tr1 = written (web_report fm a) tr2
   \<and> fst (face_report r tr1) = fst (face_report r tr2)
   \<and> written (face_report r) tr1 = written (face_report r) tr2
   \<and> fst (logo_report r tr1) = fst (logo_report r tr2)
   \<and> written (logo_report r) tr1 = written (logo_report r) tr2
   \<and> fst (text_report r tr1) = fst (text_report r tr2)
   \<and> written (text_report r) tr1 = written (text_report r) tr2
   \<and> fst (object_report fm objs tr1) = fst (object_report fm objs tr2)
   \<and> written (object_report fm objs) tr1 = written (object_report fm objs) tr2"
proof -
  have res: "fst (m tr1) = fst (m tr2)" if "printer m" for m :: "unit prog"
    using printerD [OF that, of tr1] printerD [OF that, of tr2] by simp
  have out: "written m tr1 = written m tr2" if "printer m" for m :: "unit prog"
    by (simp add: written_printer [OF that])
  note ps = printer_labels_report printer_web_report printer_face_report printer_logo_report
    printer_text_report printer_object_report
  show ?thesis
    by (intro conjI res out ps)
qed

section \<open>Claim C9: likelihood ordinals outside the table\<close>

text \<open>
  Claim C9 says that the face report returns without an out-of-range error only if every
  likelihood ordinal lies between 0 and 5. The table is indexed as a Python tuple: an
  ordinal between -6 and -1 counts from the end of the table and raises nothing.
\<close>

theorem likelihood_range_counterexample:
  "map anger_likelihood (face_annotations negative_response) = [- 1]
   \<and> face_report negative_response [] =
       (Inr (), [Print (newline # ''Faces:''), Print separator,
                 Print ''anger: VERY_LIKELY'', Print ''joy: UNKNOWN'', Print ''surprise: UNKNOWN'',
                 Print ''face bounds: (10,20),(110,20),(110,120),(10,120)''])"
  by code_simp

text \<open>
  Claim C9, amended. Indexing the table succeeds exactly for the ordinals from -6 to 5,
  the negative ones counting from the end. The face report raises \<^verbatim>\<open>IndexError\<close>
  exactly when some face has a likelihood ordinal outside -6 to 5; it does not when every
  ordinal lies between 0 and 5, and it does for every response with a face that has an
  ordinal of 6 or more.
\<close>

theorem likelihood_index_range:
  "tuple_index likelihood_name i =
     (if - 6 \<le> i \<and> i < 6 then Inr (likelihood_name ! nat (if i < 0 then 6 + i else i))
      else Inl IndexError)
   \<and> (fst (face_report r tr) = Inl IndexError) =
       (\<exists>f\<in>set (face_annotations r).
          \<not> (valid_ordinal (anger_likelihood f) \<and> valid_ordinal (joy_likelihood f)
             \<and> valid_ordinal (surprise_likelihood f)))
   \<and> valid_ordinal i = (- 6 \<le> i \<and> i < 6)
   \<and> ((\<forall>f\<in>set (face_annotations r).
          0 \<le> anger_likelihood f \<and> anger_likelihood f \<le> 5
          \<and> 0 \<le> joy_likelihood f \<and> joy_likelihood f \<le> 5
          \<and> 0 \<le> surprise_likelihood f \<and> surprise_likelihood f \<le> 5) \<longrightarrow>
       fst (face_report r tr) \<noteq> Inl IndexError)
   \<and> (\<forall>f\<in>set (face_annotations r).
         6 \<le> anger_likelihood f \<or> 6 \<le> joy_likelihood f \<or> 6 \<le> surprise_likelihood f \<longrightarrow>
         fst (face_report r tr) = Inl IndexError)"
proof -
  have idx: "tuple_index likelihood_name i =
     (if - 6 \<le> i \<and> i < 6 then Inr (likelihood_name ! nat (if i < 0 then 6 + i else i))
      else Inl IndexError)"
    by (simp add: tuple_index_likelihood valid_ordinal_def likelihood_label_def)
  have iff: "(fst (face_report r tr) = Inl IndexError) = (\<exists>f\<in>set (face_annotations r). \<not> face_ok f)"
  proof (cases "\<forall>f\<in>set (face_annotations r). face_ok f")
    case True
    then show ?thesis by (simp add: face_report_ok service_error_not_index)
  next
    case False
    then have "\<exists>f\<in>set (face_annotations r). \<not> face_ok f" by simp
    then show ?thesis by (simp add: face_report_bad)
  qed
  have suff: "fst (face_report r tr) \<noteq> Inl IndexError"
    if "\<forall>f\<in>set (face_annotations r).
          0 \<le> anger_likelihood f \<and> anger_likelihood f \<le> 5
          \<and> 0 \<le> joy_likelihood f \<and> joy_likelihood f \<le> 5
          \<and> 0 \<le> surprise_likelihood f \<and> surprise_likelihood f \<le> 5"
  proof -
    from that have "\<forall>f\<in>set (face_annotations r). face_ok f"
      by (simp add: face_ok_simple)
    then show ?thesis by (simp add: iff)
  qed
  have large: "\<forall>f\<in>set (face_annotations r).
         6 \<le> anger_likelihood f \<or> 6 \<le> joy_likelihood f \<or> 6 \<le> surprise_likelihood f \<longrightarrow>
         fst (face_report r tr) = Inl IndexError"
  proof (intro ballI impI)
    fix f
    assume "f \<in> set (face_annotations r)"
      and "6 \<le> anger_likelihood f \<or> 6 \<le> joy_likelihood f \<or> 6 \<le> surprise_likelihood f"
    then have "f \<in> set (face_annotations r)" and "\<not> face_ok f"
      by (auto simp: face_ok_def valid_ordinal_def)
    then have "\<exists>f\<in>set (face_annotations r). \<not> face_ok f" by blast
    then show "fst (face_report r tr) = Inl IndexError" by (simp only: iff)
  qed
  show ?thesis
    using idx suff large by (simp add: iff face_ok_def valid_ordinal_def)
qed

theorem likelihood_index_range_witness:
  "fst (face_report stray_response []) = Inl IndexError
   \<and> fst (face_report good_response []) \<noteq> Inl IndexError
   \<and> tuple_index likelihood_name 6 = Inl IndexError
   \<and> tuple_index likelihood_name (- 7) = Inl IndexError
   \<and> tuple_index likelihood_name (- 6) = Inr ''UNKNOWN''"
  using likelihood_index_range [of 6 stray_response "[]"]
    likelihood_index_range [of "- 7" good_response "[]"]
    likelihood_index_range [of "- 6" good_response "[]"]
  by (simp add: stray_response_def good_response_def face_with_def valid_ordinal_def
        likelihood_name_def)

section \<open>Claim C10: the section is printed before the error is raised\<close>

text \<open>
  Claim C10 says that every face response with a non-empty error message has its full
  section printed before the error is raised. A face with a likelihood ordinal outside the
  table ends the report in the middle of the section, with \<^verbatim>\<open>IndexError\<close>.
\<close>

theorem section_before_raise_counterexample:
  "message (error stray_failed_response) = ''Bad image data.''
   \<and> face_report stray_failed_response [] =
       (Inl IndexError, [Print (newline # ''Faces:''), Print separator, Print ''anger: UNKNOWN''])"
  by code_simp

text \<open>
  Claim C10, amended. For every response with a non-empty error message, the logo and
  text reports print their full section, header, separator and the lines of every record,
  and then raise the service's error; what they print is what they print for the same
  response without the error message. So does the face report on every response whose
  likelihood ordinals all index the table.
\<close>

theorem section_before_raise:
  assumes "message (error r) \<noteq> []"
  shows "logo_report r tr = (Inl (Exception (message (error r) @ error_info)), tr @ logo_section r)
   \<and> text_report r tr = (Inl (Exception (message (error r) @ error_info)), tr @ text_section r)
   \<and> ((\<forall>f\<in>set (face_annotations r). face_ok f) \<longrightarrow>
        face_report r tr = (Inl (Exception (message (error r) @ error_info)), tr @ face_section r))
   \<and> snd (logo_report r tr) = snd (logo_report (r\<lparr>error := \<lparr>message = []\<rparr>\<rparr>) tr)
   \<and> snd (text_report r tr) = snd (text_report (r\<lparr>error := \<lparr>message = []\<rparr>\<rparr>) tr)
   \<and> ((\<forall>f\<in>set (face_annotations r). face_ok f) \<longrightarrow>
        snd (face_report r tr) = snd (face_report (r\<lparr>error := \<lparr>message = []\<rparr>\<rparr>) tr))"
proof -
  have err: "service_error r = Inl (Exception (message (error r) @ error_info))"
    using assms by (simp add: service_error_def error_info_def)
  have "logo_section (r\<lparr>error := \<lparr>message = []\<rparr>\<rparr>) = logo_section r"
    and "text_section (r\<lparr>error := \<lparr>message = []\<rparr>\<rparr>) = text_section r"
    and "face_section (r\<lparr>error := \<lparr>message = []\<rparr>\<rparr>) = face_section r"
    by (simp_all add: logo_section_def text_section_def face_section_def)
  then show ?thesis
    by (simp add: logo_report_eq text_report_eq face_report_ok err)
qed

theorem section_before_raise_witness:
  "face_report failed_response [] =
     (Inl (Exception (''Bad image data.'' @ error_info)),
      [Print (newline # ''Faces:''), Print separator,
       Print ''anger: POSSIBLE'', Print ''joy: UNKNOWN'', Print ''surprise: VERY_LIKELY'',
       Print ''face bounds: (10,20),(110,20),(110,120),(10,120)''])
   \<and> logo_report failed_response [] =
     (Inl (Exception (''Bad image data.'' @ error_info)),
      [Print (newline # ''Logos:''), Print separator, Print ''acme''])"
proof -
  have m: "message (error failed_response) \<noteq> []"
    by (simp add: failed_response_def)
  have ok: "\<forall>f\<in>set (face_annotations failed_response). face_ok f"
    by (simp add: failed_response_def good_response_def face_with_def face_ok_def valid_ordinal_def)
  have fs: "face_section failed_response =
     [Print (newline # ''Faces:''), Print separator,
       Print ''anger: POSSIBLE'', Print ''joy: UNKNOWN'', Print ''surprise: VERY_LIKELY'',
       Print ''face bounds: (10,20),(110,20),(110,120),(10,120)'']"
    by code_simp
  have ls: "logo_section failed_response = [Print (newline # ''Logos:''), Print separator, Print ''acme'']"
    by code_simp
  have msg: "message (error failed_response) = ''Bad image data.''"
    by (simp add: failed_response_def)
  show ?thesis
    using section_before_raise [OF m, of "[]"] ok by (simp only: fs ls msg append_Nil simp_thms)
qed

end
